theory Spec2Isabelle
  imports Complex_Main "HOL-Library.Log_Nat"
begin

section \<open>JavaScript numbers\<close>

text \<open>
  A JavaScript Number is an IEEE 754 binary64 value.  The finite ones are carried as the
  rational they denote; \<open>NaN\<close> and the two infinities are separate constructors.  The
  negative zero is identified with zero: the functions modelled below only compare
  numbers, test them with \<open>isNaN\<close>/\<open>isFinite\<close>/\<open>||\<close>, add and multiply them, divide
  by the literal 100 and print them with \<open>toFixed\<close>, and none of these tells the two
  zeros apart.
\<close>

datatype jsnum = NaN | Fin rat | PInf | NInf

definition pow2 :: "int \<Rightarrow> rat" where
  "pow2 e = (if 0 \<le> e then 2 ^ nat e else 1 / 2 ^ nat (- e))"

text \<open>The binary exponent of a positive rational: \<open>2^e \<le> x < 2^(e+1)\<close>.\<close>

definition expo :: "rat \<Rightarrow> int" where
  "expo x =
     (if 1 \<le> x then bitlen \<lfloor>x\<rfloor> - 1
      else (let k = bitlen \<lfloor>1 / x\<rfloor> - 1
            in if x * 2 ^ nat k = 1 then - k else - k - 1))"

text \<open>Round to the nearest integer, ties to the even one.\<close>

definition rne :: "rat \<Rightarrow> int" where
  "rne y =
     (let f = \<lfloor>y\<rfloor>; r = y - of_int f
      in if r < 1 / 2 then f
         else if 1 / 2 < r then f + 1
         else if even f then f else f + 1)"

text \<open>
  The spacing of binary64 values around a positive \<open>a\<close>: 53 significant bits, and the
  fixed spacing \<open>2^-1074\<close> of the subnormal range below \<open>2^-1022\<close>.
\<close>

definition bexp :: "rat \<Rightarrow> int" where
  "bexp a = max (expo a) (- 1022)"

definition quantum :: "rat \<Rightarrow> rat" where
  "quantum a = pow2 (bexp a - 52)"

definition nearest :: "rat \<Rightarrow> rat" where
  "nearest a = of_int (rne (a / quantum a)) * quantum a"

text \<open>
  Rounding of an exact result to binary64 (round to nearest, ties to even); a result
  that rounds to \<open>2^1024\<close> or beyond is an infinity.
\<close>

definition round64 :: "rat \<Rightarrow> jsnum" where
  "round64 x =
     (if x = 0 then Fin 0
      else if 0 < x then (if pow2 1024 \<le> nearest x then PInf else Fin (nearest x))
      else (if pow2 1024 \<le> nearest (- x) then NInf else Fin (- nearest (- x))))"

definition isNaN :: "jsnum \<Rightarrow> bool" where
  "isNaN x = (x = NaN)"

definition isFinite :: "jsnum \<Rightarrow> bool" where
  "isFinite x = (case x of Fin _ \<Rightarrow> True | _ \<Rightarrow> False)"

text \<open>The relational operators \<open><\<close> and \<open>>\<close>: false as soon as an operand is NaN.\<close>

fun jlt :: "jsnum \<Rightarrow> jsnum \<Rightarrow> bool" where
  "jlt NaN _ = False"
| "jlt _ NaN = False"
| "jlt (Fin a) (Fin b) = (a < b)"
| "jlt (Fin _) PInf = True"
| "jlt (Fin _) NInf = False"
| "jlt PInf _ = False"
| "jlt NInf NInf = False"
| "jlt NInf _ = True"

definition jgt :: "jsnum \<Rightarrow> jsnum \<Rightarrow> bool" where
  "jgt a b = jlt b a"

definition jle :: "jsnum \<Rightarrow> jsnum \<Rightarrow> bool" where
  "jle a b = (a \<noteq> NaN \<and> b \<noteq> NaN \<and> \<not> jlt b a)"

text \<open>The sign of a number that is not NaN: \<open>-1\<close>, \<open>0\<close> or \<open>1\<close>.\<close>

fun jsign :: "jsnum \<Rightarrow> int" where
  "jsign (Fin a) = (if a < 0 then - 1 else if a = 0 then 0 else 1)"
| "jsign PInf = 1"
| "jsign NInf = - 1"
| "jsign NaN = 0"

definition signedInf :: "int \<Rightarrow> jsnum" where
  "signedInf s = (if s < 0 then NInf else PInf)"

text \<open>The operator \<open>*\<close>.\<close>

fun jmul :: "jsnum \<Rightarrow> jsnum \<Rightarrow> jsnum" where
  "jmul NaN _ = NaN"
| "jmul _ NaN = NaN"
| "jmul (Fin a) (Fin b) = round64 (a * b)"
| "jmul a b = (if jsign a = 0 \<or> jsign b = 0 then NaN else signedInf (jsign a * jsign b))"

text \<open>The operators \<open>+\<close> and \<open>-\<close> on numbers.\<close>

fun jadd :: "jsnum \<Rightarrow> jsnum \<Rightarrow> jsnum" where
  "jadd NaN _ = NaN"
| "jadd _ NaN = NaN"
| "jadd (Fin a) (Fin b) = round64 (a + b)"
| "jadd PInf NInf = NaN"
| "jadd NInf PInf = NaN"
| "jadd PInf _ = PInf"
| "jadd NInf _ = NInf"
| "jadd (Fin _) b = b"

fun jneg :: "jsnum \<Rightarrow> jsnum" where
  "jneg NaN = NaN"
| "jneg (Fin a) = Fin (- a)"
| "jneg PInf = NInf"
| "jneg NInf = PInf"

definition jsub :: "jsnum \<Rightarrow> jsnum \<Rightarrow> jsnum" where
  "jsub a b = jadd a (jneg b)"

text \<open>
  The operator \<open>/\<close> with a finite, non-zero divisor (the program only divides by the
  literal 100).
\<close>

fun jdiv :: "jsnum \<Rightarrow> rat \<Rightarrow> jsnum" where
  "jdiv NaN d = NaN"
| "jdiv (Fin a) d = round64 (a / d)"
| "jdiv PInf d = (if 0 < d then PInf else NInf)"
| "jdiv NInf d = (if 0 < d then NInf else PInf)"

text \<open>\<open>x || 0\<close> on a number: NaN and zero are falsy.\<close>

definition orZero :: "jsnum \<Rightarrow> jsnum" where
  "orZero x = (if x = NaN \<or> x = Fin 0 then Fin 0 else x)"

definition MAX_SAFE_INTEGER :: jsnum where
  "MAX_SAFE_INTEGER = Fin 9007199254740991"

section \<open>Strings\<close>

text \<open>
  Strings are sequences of code units below 256.  The character classes are those of
  the language: white space as removed by \<open>trim\<close> and skipped by \<open>parseFloat\<close>, the
  decimal digits, and the word characters of the regular expression class \<open>\w\<close>.
\<close>

definition isSpace :: "char \<Rightarrow> bool" where
  "isSpace c = ((of_char c :: nat) \<in> set [9, 10, 11, 12, 13, 32, 160])"

definition isDigit :: "char \<Rightarrow> bool" where
  "isDigit c = (48 \<le> (of_char c :: nat) \<and> (of_char c :: nat) \<le> 57)"

definition isUpper :: "char \<Rightarrow> bool" where
  "isUpper c = (65 \<le> (of_char c :: nat) \<and> (of_char c :: nat) \<le> 90)"

definition isLower :: "char \<Rightarrow> bool" where
  "isLower c = (97 \<le> (of_char c :: nat) \<and> (of_char c :: nat) \<le> 122)"

definition isWord :: "char \<Rightarrow> bool" where
  "isWord c = (isDigit c \<or> isUpper c \<or> isLower c \<or> c = CHR ''_'')"

text \<open>Case folding of the \<open>i\<close> flag, which on these patterns only concerns ASCII letters.\<close>

definition lower :: "char \<Rightarrow> char" where
  "lower c = (if isUpper c then char_of ((of_char c :: nat) + 32) else c)"

definition digitVal :: "char \<Rightarrow> nat" where
  "digitVal c = of_char c - 48"

definition digitsVal :: "string \<Rightarrow> nat" where
  "digitsVal ds = foldl (\<lambda>a c. 10 * a + digitVal c) 0 ds"

text \<open>A pattern of lower-case letters matches at the start of \<open>s\<close>, ignoring case.\<close>

definition startsWithCI :: "string \<Rightarrow> string \<Rightarrow> bool" where
  "startsWithCI p s = (length p \<le> length s \<and> map lower (take (length p) s) = p)"

section \<open>sanitizeInput\<close>

text \<open>
  A value handed to this module is used in two ways only: \<open>typeof\<close> tells whether it is
  a string, and \<open>String(value)\<close> converts it.  A non-string value that \<open>String\<close>
  converts (a number, a boolean, \<open>undefined\<close>, \<open>null\<close>, an object with a primitive
  conversion) is therefore carried as the string that \<open>String\<close> makes of it.  The values
  that \<open>String\<close> cannot convert are added with the calls of \<open>calculateRowTotal\<close> below.
\<close>

datatype jsval = JString string | NonString string

fun String :: "jsval \<Rightarrow> string" where
  "String (JString s) = s"
| "String (NonString s) = s"

text \<open>\<open>.replace(/<[^>]*>/g, '')\<close>: a \<open><\<close> is removed together with everything up to the next \<open>>\<close>.\<close>

function stripTags :: "string \<Rightarrow> string" where
  "stripTags [] = []"
| "stripTags (c # cs) =
     (if c = CHR ''<'' \<and> CHR ''>'' \<in> set cs
      then stripTags (tl (dropWhile (\<lambda>d. d \<noteq> CHR ''>'') cs))
      else c # stripTags cs)"
  by pat_completeness auto
termination
proof (relation "measure length")
  fix c :: char and cs :: string
  have "length (tl (dropWhile (\<lambda>d. d \<noteq> CHR ''>'') cs)) \<le> length cs"
    using length_dropWhile_le [of "\<lambda>d. d \<noteq> CHR ''>''" cs] by simp
  then show "(tl (dropWhile (\<lambda>d. d \<noteq> CHR ''>'') cs), c # cs) \<in> measure length"
    by simp
qed simp_all

text \<open>\<open>.replace(/[<>]/g, '')\<close>.\<close>

definition stripAngles :: "string \<Rightarrow> string" where
  "stripAngles s = filter (\<lambda>c. c \<noteq> CHR ''<'' \<and> c \<noteq> CHR ''>'') s"

text \<open>\<open>.replace(/javascript:/gi, '')\<close>: matches are found from left to right and do not overlap.\<close>

function stripScheme :: "string \<Rightarrow> string" where
  "stripScheme [] = []"
| "stripScheme (c # cs) =
     (if startsWithCI ''javascript:'' (c # cs)
      then stripScheme (drop 10 cs)
      else c # stripScheme cs)"
  by pat_completeness auto
termination
  by (relation "measure length") simp_all

text \<open>
  One match of \<open>/on\w+=/i\<close> at the start of \<open>s\<close>: the rest of \<open>s\<close> after the match.
  \<open>\w+\<close> is greedy and \<open>=\<close> is not a word character, so the match exists exactly when
  the longest run of word characters after \<open>on\<close> is not empty and is followed by \<open>=\<close>.
\<close>

definition matchHandler :: "string \<Rightarrow> string option" where
  "matchHandler s =
     (case s of
        a # b # t \<Rightarrow>
          (if lower a = CHR ''o'' \<and> lower b = CHR ''n''
           then (case dropWhile isWord t of
                   e # r \<Rightarrow> (if takeWhile isWord t \<noteq> [] \<and> e = CHR ''='' then Some r else None)
                 | [] \<Rightarrow> None)
           else None)
      | _ \<Rightarrow> None)"

lemma matchHandler_shorter: "matchHandler s = Some r \<Longrightarrow> length r < length s"
proof -
  assume h: "matchHandler s = Some r"
  then obtain a b t where s: "s = a # b # t"
    by (auto simp: matchHandler_def split: list.splits)
  from h s obtain e where "dropWhile isWord t = e # r"
    by (auto simp: matchHandler_def split: list.splits if_splits)
  then have "length r < length t"
    using length_dropWhile_le [of isWord t] by simp
  with s show ?thesis by simp
qed

text \<open>\<open>.replace(/on\w+=/gi, '')\<close>.\<close>

function stripHandlers :: "string \<Rightarrow> string" where
  "stripHandlers [] = []"
| "stripHandlers (c # cs) =
     (case matchHandler (c # cs) of
        Some r \<Rightarrow> stripHandlers r
      | None \<Rightarrow> c # stripHandlers cs)"
  by pat_completeness auto
termination
  by (relation "measure length") (auto dest: matchHandler_shorter)

text \<open>\<open>.trim()\<close>.\<close>

definition trim :: "string \<Rightarrow> string" where
  "trim s = rev (dropWhile isSpace (rev (dropWhile isSpace s)))"

fun sanitizeInput :: "jsval \<Rightarrow> string" where
  "sanitizeInput (NonString _) = []"
| "sanitizeInput (JString input) =
     trim (stripHandlers (stripScheme (stripAngles (stripTags input))))"

section \<open>parseFloat\<close>

definition pow10 :: "int \<Rightarrow> rat" where
  "pow10 k = (if 0 \<le> k then 10 ^ nat k else 1 / 10 ^ nat (- k))"

text \<open>
  The exponent part of a decimal literal: \<open>e\<close> or \<open>E\<close>, an optional sign and at least
  one digit.  Where it is absent or incomplete nothing is consumed and the exponent is 0.
\<close>

definition signedInteger :: "string \<Rightarrow> int" where
  "signedInteger s =
     (case s of
        c # t \<Rightarrow>
          (if c = CHR ''-'' then - int (digitsVal (takeWhile isDigit t))
           else if c = CHR ''+'' then int (digitsVal (takeWhile isDigit t))
           else int (digitsVal (takeWhile isDigit s)))
      | [] \<Rightarrow> 0)"

definition exponentPart :: "string \<Rightarrow> int" where
  "exponentPart s =
     (case s of
        c # t \<Rightarrow> (if c = CHR ''e'' \<or> c = CHR ''E'' then signedInteger t else 0)
      | [] \<Rightarrow> 0)"

text \<open>
  The longest prefix of a string that is a decimal literal of the language's string
  grammar: a sign, then \<open>Infinity\<close> or digits with an optional fraction and exponent.
  The sign of a literal is that of its value, also when the value is an infinity.
\<close>

datatype literal = NoLiteral | InfinityLiteral bool | DecimalLiteral rat

definition strDecimalLiteral :: "string \<Rightarrow> literal" where
  "strDecimalLiteral t =
     (let neg = (case t of c # _ \<Rightarrow> c = CHR ''-'' | [] \<Rightarrow> False);
          u = (case t of c # r \<Rightarrow> (if c = CHR ''-'' \<or> c = CHR ''+'' then r else t) | [] \<Rightarrow> [])
      in if take 8 u = ''Infinity'' then InfinityLiteral neg
         else
           let ip = takeWhile isDigit u;
               r1 = dropWhile isDigit u;
               hasDot = (case r1 of c # _ \<Rightarrow> c = CHR ''.'' | [] \<Rightarrow> False);
               fp = (if hasDot then takeWhile isDigit (tl r1) else []);
               r2 = (if hasDot then dropWhile isDigit (tl r1) else r1)
           in if ip = [] \<and> fp = [] then NoLiteral
              else
                let v = of_nat (digitsVal (ip @ fp)) * pow10 (exponentPart r2 - int (length fp))
                in DecimalLiteral (if neg then - v else v))"

text \<open>
  \<open>parseFloat\<close> skips leading white space and reads the longest prefix that is a decimal
  literal.  With no such prefix the result is NaN; otherwise it is the literal's value,
  rounded.
\<close>

definition parseFloat :: "string \<Rightarrow> jsnum" where
  "parseFloat s =
     (case strDecimalLiteral (dropWhile isSpace s) of
        NoLiteral \<Rightarrow> NaN
      | InfinityLiteral neg \<Rightarrow> (if neg then NInf else PInf)
      | DecimalLiteral v \<Rightarrow> round64 v)"

section \<open>parseInt\<close>

definition isHexDigit :: "char \<Rightarrow> bool" where
  "isHexDigit c =
     (isDigit c \<or> (97 \<le> (of_char (lower c) :: nat) \<and> (of_char (lower c) :: nat) \<le> 102))"

definition hexDigitVal :: "char \<Rightarrow> nat" where
  "hexDigitVal c = (if isDigit c then digitVal c else of_char (lower c) - 87)"

definition hexDigitsVal :: "string \<Rightarrow> nat" where
  "hexDigitsVal ds = foldl (\<lambda>a c. 16 * a + hexDigitVal c) 0 ds"

text \<open>
  The integer literal read by \<open>parseInt\<close> called without a radix: an optional sign, then
  decimal digits, or hexadecimal digits after a prefix \<open>0x\<close> or \<open>0X\<close>.
\<close>

definition strIntegerLiteral :: "string \<Rightarrow> int option" where
  "strIntegerLiteral t =
     (let neg = (case t of c # _ \<Rightarrow> c = CHR ''-'' | [] \<Rightarrow> False);
          u = (case t of c # r \<Rightarrow> (if c = CHR ''-'' \<or> c = CHR ''+'' then r else t) | [] \<Rightarrow> []);
          hex = (map lower (take 2 u) = ''0x'');
          z = (if hex then takeWhile isHexDigit (drop 2 u) else takeWhile isDigit u);
          n = (if hex then int (hexDigitsVal z) else int (digitsVal z))
      in if z = [] then None else Some (if neg then - n else n))"

definition parseInt :: "string \<Rightarrow> jsnum" where
  "parseInt s =
     (case strIntegerLiteral (dropWhile isSpace s) of
        None \<Rightarrow> NaN
      | Some n \<Rightarrow> round64 (of_int n))"

section \<open>toFixed\<close>

text \<open>
  The result of \<open>x.toFixed(2)\<close>.  For a finite \<open>x\<close> of magnitude \<open>10^21\<close> or more the
  method returns the general Number-to-String conversion of \<open>x\<close>, whose digits are not
  computed here: \<open>NumberString x\<close> stands for that string.
\<close>

datatype jstext = Text string | NumberString rat

text \<open>The character of a decimal digit \<open>d < 10\<close>, and the decimal digits of a number.\<close>

definition digitChar :: "nat \<Rightarrow> char" where
  "digitChar d = ''0123456789'' ! d"

fun natDigits :: "nat \<Rightarrow> string" where
  "natDigits n =
     (if n < 10 then [digitChar n]
      else natDigits (n div 10) @ [digitChar (n mod 10)])"

text \<open>
  Two fraction digits: the integer \<open>n\<close> nearest to \<open>100 * \<bar>x\<bar>\<close> (the larger one on a
  tie), printed with at least three digits and a point before the last two.
\<close>

definition fixed2 :: "rat \<Rightarrow> string" where
  "fixed2 x =
     (let n = nat \<lfloor>\<bar>x\<bar> * 100 + 1 / 2\<rfloor>;
          ds = natDigits n;
          padded = replicate (3 - length ds) CHR ''0'' @ ds;
          k = length padded - 2
      in (if x < 0 then ''-'' else []) @ take k padded @ ''.'' @ drop k padded)"

fun toFixed2 :: "jsnum \<Rightarrow> jstext" where
  "toFixed2 NaN = Text ''NaN''"
| "toFixed2 PInf = Text ''Infinity''"
| "toFixed2 NInf = Text ''-Infinity''"
| "toFixed2 (Fin x) = (if 10 ^ 21 \<le> \<bar>x\<bar> then NumberString x else Text (fixed2 x))"

section \<open>validateNumericInput and calculateRowTotal\<close>

definition MAX_ITEMS_PER_SALE :: nat where
  "MAX_ITEMS_PER_SALE = 50"

definition MAX_QUANTITY_PER_ITEM :: jsnum where
  "MAX_QUANTITY_PER_ITEM = Fin 10000"

definition MAX_PRICE_PER_ITEM :: jsnum where
  "MAX_PRICE_PER_ITEM = Fin 1000000"

definition MAX_ITEM_DIMENSIONS :: jsnum where
  "MAX_ITEM_DIMENSIONS = Fin 10000"

record validation =
  isValid :: bool
  sanitizedValue :: jsnum

text \<open>
  The fourth parameter of the source, \<open>fieldName\<close>, only goes into the console warning
  and is left out, as are the console messages themselves.
\<close>

definition validateNumericInput :: "jsval \<Rightarrow> jsnum \<Rightarrow> jsnum \<Rightarrow> validation" where
  "validateNumericInput val mn mx =
     (let sanitized = sanitizeInput (JString (String val));
          numericValue = parseFloat sanitized
      in if isNaN numericValue then \<lparr>isValid = False, sanitizedValue = Fin 0\<rparr>
         else if jlt numericValue mn \<or> jgt numericValue mx
           then \<lparr>isValid = False, sanitizedValue = numericValue\<rparr>
         else \<lparr>isValid = True, sanitizedValue = numericValue\<rparr>)"

text \<open>The overflow test shared by both branches: \<open>!isFinite(total) || total > Number.MAX_SAFE_INTEGER\<close>.\<close>

definition overflows :: "jsnum \<Rightarrow> bool" where
  "overflows t = (\<not> isFinite t \<or> jgt t MAX_SAFE_INTEGER)"

definition calculateRowTotal :: "jsval \<Rightarrow> jsval \<Rightarrow> jsval \<Rightarrow> jsval \<Rightarrow> jsnum" where
  "calculateRowTotal width len quantity unitPrice =
     (let widthValidation = validateNumericInput width (Fin 0) MAX_ITEM_DIMENSIONS;
          lengthValidation = validateNumericInput len (Fin 0) MAX_ITEM_DIMENSIONS;
          quantityValidation = validateNumericInput quantity (Fin 0) MAX_QUANTITY_PER_ITEM;
          priceValidation = validateNumericInput unitPrice (Fin 0) MAX_PRICE_PER_ITEM;
          widthVal = sanitizedValue widthValidation;
          lengthVal = sanitizedValue lengthValidation;
          quantityVal = sanitizedValue quantityValidation;
          unitPriceVal = sanitizedValue priceValidation;
          hasWidth = (isValid widthValidation \<and> jgt widthVal (Fin 0));
          hasLength = (isValid lengthValidation \<and> jgt lengthVal (Fin 0));
          hasQuantity = (isValid quantityValidation \<and> jgt quantityVal (Fin 0));
          hasUnitPrice = (isValid priceValidation \<and> jgt unitPriceVal (Fin 0))
      in if hasWidth \<and> hasLength \<and> hasQuantity \<and> hasUnitPrice then
           (let area = jmul widthVal lengthVal;
                rowTotal = jmul (jmul area quantityVal) unitPriceVal
            in if overflows rowTotal then Fin 0 else rowTotal)
         else if \<not> hasWidth \<and> \<not> hasLength \<and> hasQuantity \<and> hasUnitPrice then
           (let rowTotal = jmul quantityVal unitPriceVal
            in if overflows rowTotal then Fin 0 else rowTotal)
         else Fin 0)"

text \<open>
  A call of \<open>calculateRowTotal\<close> with arbitrary arguments.  An argument is a value that
  \<open>String\<close> converts, or one without a primitive conversion (such as
  \<open>Object.create(null)\<close>), on which \<open>String(value)\<close> throws a TypeError.  The function
  validates all four arguments before anything else, and each validation starts with
  \<open>String(value)\<close>: so the call throws exactly when one of the arguments cannot be
  converted, and otherwise returns what is computed from the converted values.
\<close>

datatype argument = Converts jsval | NoPrimitive

datatype exception = TypeError

fun callCalculateRowTotal ::
  "argument \<Rightarrow> argument \<Rightarrow> argument \<Rightarrow> argument \<Rightarrow> exception + jsnum" where
  "callCalculateRowTotal (Converts width) (Converts len) (Converts quantity) (Converts unitPrice) =
     Inr (calculateRowTotal width len quantity unitPrice)"
| "callCalculateRowTotal _ _ _ _ = Inl TypeError"

section \<open>updateAllTotals\<close>

text \<open>One row of the items table: the values of its input fields.\<close>

record row =
  itemField :: "string option"
  widthField :: string
  lengthField :: string
  spaceField :: string
  quantityField :: string
  unitPriceField :: string
  itemTotalField :: string

definition rowTotal :: "row \<Rightarrow> jsnum" where
  "rowTotal r =
     calculateRowTotal (JString (widthField r)) (JString (lengthField r))
       (JString (quantityField r)) (JString (unitPriceField r))"

text \<open>The loop over the rows: \<open>supTotal += total\<close>, from left to right.\<close>

fun sumRows :: "jsnum \<Rightarrow> row list \<Rightarrow> jsnum" where
  "sumRows supTotal [] = supTotal"
| "sumRows supTotal (r # rs) = sumRows (jadd supTotal (rowTotal r)) rs"

text \<open>\<open>total > 0 ? total.toFixed(2) : ''\<close>.\<close>

definition showRowTotal :: "jsnum \<Rightarrow> jstext" where
  "showRowTotal t = (if jgt t (Fin 0) then toFixed2 t else Text [])"

text \<open>\<open>discount > 0 ? supTotal * (1 - discount / 100) : supTotal\<close>.\<close>

definition applyDiscount :: "jsnum \<Rightarrow> jsnum \<Rightarrow> jsnum" where
  "applyDiscount supTotal discount =
     (if jgt discount (Fin 0) then jmul supTotal (jsub (Fin 1) (jdiv discount 100))
      else supTotal)"

text \<open>
  What \<open>updateAllTotals\<close> computes and writes: the texts of the row total fields, the
  numbers \<open>supTotal\<close> and \<open>finalTotal\<close>, and the texts of the two total fields.
\<close>

record totals =
  itemTotalTexts :: "jstext list"
  supTotal :: jsnum
  finalTotal :: jsnum
  supTotalText :: jstext
  totalText :: jstext

definition updateAllTotals :: "row list \<Rightarrow> string \<Rightarrow> totals" where
  "updateAllTotals rs discountField =
     (let sup = sumRows (Fin 0) rs;
          discount = orZero (parseFloat discountField);
          final = applyDiscount sup discount
      in \<lparr>itemTotalTexts = map (\<lambda>r. showRowTotal (rowTotal r)) rs,
          supTotal = sup,
          finalTotal = final,
          supTotalText = toFixed2 sup,
          totalText = toFixed2 final\<rparr>)"

section \<open>The submit handler of the sales form\<close>

text \<open>The form as the handler reads it, and what it reads from the window.\<close>

record form =
  rows :: "row list"
  customerName :: string
  customerPhone :: string
  discountValue :: string
  supTotalValue :: string
  totalValue :: string

record window =
  now :: int
  lastSubmissionTime :: "int option"
  apiClient :: bool
  randomId :: string
  isoDate :: string

record lineItem =
  li_item :: string
  li_width :: string
  li_length :: string
  li_space :: string
  li_quantity :: string
  li_unitPrice :: string
  li_itemTotal :: string

record saleDb =
  sale_id :: string
  sale_customername :: string
  sale_customerphone :: string
  sale_date :: string
  sale_items :: "lineItem list"
  sale_discount :: jsnum
  sale_suptotal :: jsnum
  sale_total :: jsnum
  sale_status :: string

text \<open>
  How a submission ends: one of the early returns, or the call of
  \<open>window.apiClient.createSale\<close> with the sale.  What follows that call (the redirect, or
  the toast when saving failed) is not modelled.
\<close>

datatype outcome =
    RateLimited
  | TooManyItems
  | NoItems
  | ValidationError "nat list"
  | NotConfigured
  | CreateSale saleDb

text \<open>\<open>window.lastSubmissionTime && (Date.now() - window.lastSubmissionTime) < 2000\<close>.\<close>

definition rateLimited :: "window \<Rightarrow> bool" where
  "rateLimited w =
     (case lastSubmissionTime w of
        None \<Rightarrow> False
      | Some t \<Rightarrow> t \<noteq> 0 \<and> now w - t < 2000)"

text \<open>The state of the loop over the rows.\<close>

record scan =
  items :: "lineItem list"
  hasError :: bool
  validationErrors :: "nat list"

text \<open>
  The body of the loop for the row at \<open>index\<close>.  A message pushed to
  \<open>validationErrors\<close> is recorded by the row number it names.
\<close>

definition scanRow :: "nat \<Rightarrow> row \<Rightarrow> scan \<Rightarrow> scan" where
  "scanRow index r st =
     (let item = (case itemField r of Some v \<Rightarrow> sanitizeInput (JString v) | None \<Rightarrow> []);
          widthValidation = validateNumericInput (JString (widthField r)) (Fin 0) MAX_ITEM_DIMENSIONS;
          lengthValidation = validateNumericInput (JString (lengthField r)) (Fin 0) MAX_ITEM_DIMENSIONS;
          quantityValidation = validateNumericInput (JString (quantityField r)) (Fin 0) MAX_QUANTITY_PER_ITEM;
          priceValidation = validateNumericInput (JString (unitPriceField r)) (Fin 0) MAX_PRICE_PER_ITEM;
          hasWidth = (isValid widthValidation \<and> jgt (sanitizedValue widthValidation) (Fin 0));
          hasLength = (isValid lengthValidation \<and> jgt (sanitizedValue lengthValidation) (Fin 0));
          hasQuantity = (isValid quantityValidation \<and> jgt (sanitizedValue quantityValidation) (Fin 0));
          hasUnitPrice = (isValid priceValidation \<and> jgt (sanitizedValue priceValidation) (Fin 0));
          st1 = (if (hasWidth \<and> \<not> hasLength) \<or> (\<not> hasWidth \<and> hasLength)
                 then st\<lparr>hasError := True, validationErrors := validationErrors st @ [index + 1]\<rparr>
                 else st);
          st2 = (if \<not> hasQuantity \<or> \<not> hasUnitPrice then st1\<lparr>hasError := True\<rparr> else st1)
      in if item \<noteq> [] \<or> quantityField r \<noteq> []
         then st2\<lparr>items := items st2 @
                [\<lparr>li_item = item, li_width = widthField r, li_length = lengthField r,
                  li_space = spaceField r, li_quantity = quantityField r,
                  li_unitPrice = unitPriceField r, li_itemTotal = itemTotalField r\<rparr>]\<rparr>
         else st2)"

fun scanRows :: "nat \<Rightarrow> row list \<Rightarrow> scan \<Rightarrow> scan" where
  "scanRows index [] st = st"
| "scanRows index (r # rs) st = scanRows (index + 1) rs (scanRow index r st)"

definition salesFormSubmit :: "window \<Rightarrow> form \<Rightarrow> outcome" where
  "salesFormSubmit w f =
     (if rateLimited w then RateLimited
      else if MAX_ITEMS_PER_SALE < length (rows f) then TooManyItems
      else
        let st = scanRows 0 (rows f) \<lparr>items = [], hasError = False, validationErrors = []\<rparr>
        in if items st = [] then NoItems
           else if hasError st then ValidationError (validationErrors st)
           else if \<not> apiClient w then NotConfigured
           else CreateSale
             \<lparr>sale_id = randomId w,
              sale_customername = customerName f,
              sale_customerphone = customerPhone f,
              sale_date = isoDate w,
              sale_items = items st,
              sale_discount = orZero (parseFloat (discountValue f)),
              sale_suptotal = orZero (parseFloat (supTotalValue f)),
              sale_total = orZero (parseFloat (totalValue f)),
              sale_status = ''Pending''\<rparr>)"

section \<open>calculateTotal of the sales tracking page\<close>

definition calculateTotal :: "jsval \<Rightarrow> jsval \<Rightarrow> jsval \<Rightarrow> jsval \<Rightarrow> jsval \<Rightarrow> jstext" where
  "calculateTotal width len quantity unitPrice discount =
     (let w = parseFloat (String width);
          l = parseFloat (String len);
          q = parseInt (String quantity);
          u = parseFloat (String unitPrice);
          d = orZero (parseFloat (String discount))
      in if \<not> isNaN w \<and> jgt w (Fin 0) \<and> \<not> isNaN l \<and> jgt l (Fin 0)
            \<and> \<not> isNaN q \<and> jgt q (Fin 0) \<and> \<not> isNaN u \<and> jgt u (Fin 0)
         then
           (let t = jmul (jmul (jmul w l) q) u;
                t' = (if \<not> isNaN d \<and> jgt d (Fin 0)
                      then jmul t (jsub (Fin 1) (jdiv d 100)) else t)
            in toFixed2 t')
         else Text [])"

section \<open>Notions used in the statements\<close>

text \<open>The number that \<open>validateNumericInput\<close> reads from a value.\<close>

definition numericValue :: "jsval \<Rightarrow> jsnum" where
  "numericValue v = parseFloat (sanitizeInput (JString (String v)))"

text \<open>
  A field is present (\<open>hasWidth\<close>, \<open>hasLength\<close>, \<open>hasQuantity\<close>, \<open>hasUnitPrice\<close> in the
  source) when it validates within \<open>[0, mx]\<close> and its value is greater than 0.
\<close>

definition present :: "jsval \<Rightarrow> jsnum \<Rightarrow> bool" where
  "present v mx =
     (isValid (validateNumericInput v (Fin 0) mx)
      \<and> jgt (sanitizedValue (validateNumericInput v (Fin 0) mx)) (Fin 0))"

text \<open>The two kinds of rows that have a total: with both dimensions, and with neither.\<close>

definition areaPriced :: "jsval \<Rightarrow> jsval \<Rightarrow> jsval \<Rightarrow> jsval \<Rightarrow> bool" where
  "areaPriced width len quantity unitPrice =
     (present width MAX_ITEM_DIMENSIONS \<and> present len MAX_ITEM_DIMENSIONS
      \<and> present quantity MAX_QUANTITY_PER_ITEM \<and> present unitPrice MAX_PRICE_PER_ITEM)"

definition flatPriced :: "jsval \<Rightarrow> jsval \<Rightarrow> jsval \<Rightarrow> jsval \<Rightarrow> bool" where
  "flatPriced width len quantity unitPrice =
     (\<not> present width MAX_ITEM_DIMENSIONS \<and> \<not> present len MAX_ITEM_DIMENSIONS
      \<and> present quantity MAX_QUANTITY_PER_ITEM \<and> present unitPrice MAX_PRICE_PER_ITEM)"

text \<open>The total of a row when it does not overflow, and 0 when it does.\<close>

definition guarded :: "jsnum \<Rightarrow> jsnum" where
  "guarded t = (if overflows t then Fin 0 else t)"

text \<open>A number that is an infinity or finite and not negative.\<close>

definition nonNegative :: "jsnum \<Rightarrow> bool" where
  "nonNegative x = (case x of Fin y \<Rightarrow> 0 \<le> y | PInf \<Rightarrow> True | _ \<Rightarrow> False)"

text \<open>
  The row-level conditions of the submit handler.  A row has mixed dimensions when
  exactly one of width and length is present; it lacks quantity or price when one of
  them is not present.  Either makes the row an error.
\<close>

definition mixedDimensions :: "row \<Rightarrow> bool" where
  "mixedDimensions r =
     ((present (JString (widthField r)) MAX_ITEM_DIMENSIONS
         \<and> \<not> present (JString (lengthField r)) MAX_ITEM_DIMENSIONS)
      \<or> (\<not> present (JString (widthField r)) MAX_ITEM_DIMENSIONS
         \<and> present (JString (lengthField r)) MAX_ITEM_DIMENSIONS))"

definition lacksQuantityOrPrice :: "row \<Rightarrow> bool" where
  "lacksQuantityOrPrice r =
     (\<not> present (JString (quantityField r)) MAX_QUANTITY_PER_ITEM
      \<or> \<not> present (JString (unitPriceField r)) MAX_PRICE_PER_ITEM)"

definition rowInError :: "row \<Rightarrow> bool" where
  "rowInError r = (mixedDimensions r \<or> lacksQuantityOrPrice r)"

text \<open>The sanitized item name of a row, and the rows that the handler keeps.\<close>

definition itemName :: "row \<Rightarrow> string" where
  "itemName r = (case itemField r of Some v \<Rightarrow> sanitizeInput (JString v) | None \<Rightarrow> [])"

definition kept :: "row \<Rightarrow> bool" where
  "kept r = (itemName r \<noteq> [] \<or> quantityField r \<noteq> [])"

definition lineItemOf :: "row \<Rightarrow> lineItem" where
  "lineItemOf r =
     \<lparr>li_item = itemName r, li_width = widthField r, li_length = lengthField r,
      li_space = spaceField r, li_quantity = quantityField r,
      li_unitPrice = unitPriceField r, li_itemTotal = itemTotalField r\<rparr>"

definition emptyScan :: scan where
  "emptyScan = \<lparr>items = [], hasError = False, validationErrors = []\<rparr>"

text \<open>The object \<open>saleDb\<close> that the handler builds from the kept rows.\<close>

definition saleOf :: "window \<Rightarrow> form \<Rightarrow> saleDb" where
  "saleOf w f =
     \<lparr>sale_id = randomId w,
      sale_customername = customerName f,
      sale_customerphone = customerPhone f,
      sale_date = isoDate w,
      sale_items = map lineItemOf (filter kept (rows f)),
      sale_discount = orZero (parseFloat (discountValue f)),
      sale_suptotal = orZero (parseFloat (supTotalValue f)),
      sale_total = orZero (parseFloat (totalValue f)),
      sale_status = ''Pending''\<rparr>"

text \<open>A submission is accepted when the sale is handed to \<open>createSale\<close>.\<close>

definition accepted :: "outcome \<Rightarrow> bool" where
  "accepted out = (case out of CreateSale _ \<Rightarrow> True | _ \<Rightarrow> False)"

text \<open>The product that \<open>calculateRowTotal\<close> forms for a row with a total.\<close>

definition rowProduct :: "row \<Rightarrow> jsnum" where
  "rowProduct r =
     (if present (JString (widthField r)) MAX_ITEM_DIMENSIONS
      then jmul (jmul (jmul (numericValue (JString (widthField r)))
                            (numericValue (JString (lengthField r))))
                      (numericValue (JString (quantityField r))))
                (numericValue (JString (unitPriceField r)))
      else jmul (numericValue (JString (quantityField r)))
                (numericValue (JString (unitPriceField r))))"

text \<open>
  What holds of \<open>supTotal\<close> throughout the loop of \<open>updateAllTotals\<close>: it is a finite
  binary64 value between 0 and \<open>2^107\<close>.
\<close>

definition accumulated :: "jsnum \<Rightarrow> bool" where
  "accumulated s = (\<exists>v. s = Fin v \<and> 0 \<le> v \<and> v \<le> 2 ^ 107 \<and> round64 v = Fin v)"

text \<open>
  The calculation of the sale entry page for one row, as the specification words it:
  \<open>calculateRowTotal\<close> on the four inputs, the discount applied as in the aggregator,
  printed with two decimals.
\<close>

definition saleEntryTotal :: "jsval \<Rightarrow> jsval \<Rightarrow> jsval \<Rightarrow> jsval \<Rightarrow> jsval \<Rightarrow> jstext" where
  "saleEntryTotal width len quantity unitPrice discount =
     toFixed2 (applyDiscount (calculateRowTotal width len quantity unitPrice)
                 (orZero (parseFloat (String discount))))"

section \<open>Example inputs\<close>

definition exampleWindow :: window where
  "exampleWindow =
     \<lparr>now = 1700000000000, lastSubmissionTime = None, apiClient = True,
      randomId = ''3f2b'', isoDate = ''2024-01-01T00:00:00.000Z''\<rparr>"

definition exampleForm :: "row list \<Rightarrow> form" where
  "exampleForm rs =
     \<lparr>rows = rs, customerName = ''Amina'', customerPhone = ''0611'',
      discountValue = ''0'', supTotalValue = ''0.00'', totalValue = ''0.00''\<rparr>"

definition areaRow :: row where
  "areaRow =
     \<lparr>itemField = Some ''Banner'', widthField = ''10'', lengthField = ''5'', spaceField = [],
      quantityField = ''2'', unitPriceField = ''3'', itemTotalField = []\<rparr>"

definition flatRow :: row where
  "flatRow =
     \<lparr>itemField = Some ''Flyers'', widthField = [], lengthField = [], spaceField = [],
      quantityField = ''5'', unitPriceField = ''20'', itemTotalField = []\<rparr>"

definition mixedRow :: row where
  "mixedRow =
     \<lparr>itemField = Some ''Banner'', widthField = ''10'', lengthField = ''0'', spaceField = [],
      quantityField = ''1'', unitPriceField = ''5'', itemTotalField = []\<rparr>"

definition overflowRow :: row where
  "overflowRow =
     \<lparr>itemField = Some ''Banner'', widthField = ''10000'', lengthField = ''10000'',
      spaceField = [], quantityField = ''10000'', unitPriceField = ''1000000'',
      itemTotalField = []\<rparr>"

section \<open>Properties of the rounding\<close>

lemma pow2_powi: "pow2 e = 2 powi e"
  by (simp add: pow2_def power_int_def inverse_eq_divide power_one_over)

lemma pow2_pos: "0 < pow2 e"
  by (simp add: pow2_powi)

lemma pow2_add: "pow2 (a + b) = pow2 a * pow2 b"
  by (simp add: pow2_powi power_int_add)

lemma pow2_mono: "a \<le> b \<Longrightarrow> pow2 a \<le> pow2 b"
  by (simp add: pow2_powi power_int_increasing)

lemma pow2_strict_mono: "a < b \<Longrightarrow> pow2 a < pow2 b"
  by (simp add: pow2_powi power_int_strict_increasing)

lemma pow2_nat: "pow2 (int n) = 2 ^ n"
  by (simp add: pow2_def)

lemma pow2_less_cancel: "pow2 a < pow2 b \<Longrightarrow> a < b"
  using pow2_mono [of b a] by (cases "a < b") auto

lemma expo_bounds_ge1:
  assumes "1 \<le> x"
  shows "pow2 (expo x) \<le> x \<and> x < pow2 (expo x + 1)"
proof -
  let ?n = "\<lfloor>x\<rfloor>"
  have n: "0 < ?n" using assms by simp
  have b: "2 ^ nat (bitlen ?n - 1) \<le> ?n" "?n < 2 ^ nat (bitlen ?n)"
    using bitlen_bounds [OF n] by auto
  have ge1: "1 \<le> bitlen ?n" using n by (simp add: bitlen_ge_iff_power)
  have e: "expo x = bitlen ?n - 1" using assms by (simp add: expo_def)
  have "pow2 (bitlen ?n - 1) = of_int (2 ^ nat (bitlen ?n - 1))"
    using ge1 by (simp add: pow2_def)
  also have "\<dots> \<le> of_int ?n" using b(1) by (simp only: of_int_le_iff)
  also have "\<dots> \<le> x" by simp
  finally have lo: "pow2 (expo x) \<le> x" by (simp add: e)
  have "?n + 1 \<le> 2 ^ nat (bitlen ?n)" using b(2) by simp
  then have "(of_int (?n + 1) :: rat) \<le> of_int (2 ^ nat (bitlen ?n))"
    by (simp only: of_int_le_iff)
  moreover have "x < of_int (?n + 1)" by linarith
  moreover have "pow2 (bitlen ?n) = of_int (2 ^ nat (bitlen ?n))"
    using ge1 by (simp add: pow2_def)
  ultimately have "x < pow2 (expo x + 1)" by (simp add: e)
  with lo show ?thesis by simp
qed


lemma expo_bounds_lt1:
  assumes "0 < x" "x < 1"
  shows "pow2 (expo x) \<le> x \<and> x < pow2 (expo x + 1)"
proof -
  define k where "k = bitlen \<lfloor>1 / x\<rfloor> - 1"
  have y1: "1 \<le> 1 / x" using assms by simp
  have ek: "expo (1 / x) = k" using y1 by (simp add: expo_def k_def)
  have yb: "pow2 k \<le> 1 / x" "1 / x < pow2 (k + 1)"
    using expo_bounds_ge1 [OF y1] by (simp_all add: ek)
  have k0: "0 \<le> k"
  proof -
    have "pow2 0 < pow2 (k + 1)" using y1 yb(2) by (simp add: pow2_def)
    then have "0 < k + 1" by (rule pow2_less_cancel)
    then show ?thesis by simp
  qed
  have pk: "pow2 k = 2 ^ nat k" using k0 by (simp add: pow2_def)
  have le1: "x * pow2 k \<le> 1"
    using yb(1) assms(1) by (simp add: field_simps)
  have gt1: "1 < x * pow2 (k + 1)"
    using yb(2) assms(1) by (simp add: field_simps)
  have neg: "pow2 (- k) * pow2 k = 1" "pow2 (- k - 1) * pow2 (k + 1) = 1"
    using pow2_add [of "- k" k] pow2_add [of "- k - 1" "k + 1"] by (simp_all add: pow2_def)
  show ?thesis
  proof (cases "x * 2 ^ nat k = 1")
    case True
    then have e: "expo x = - k" using assms by (simp add: expo_def k_def Let_def)
    have "x * pow2 k = pow2 (- k) * pow2 k" using True neg(1) pk by simp
    then have "x = pow2 (- k)" using pow2_pos [of k] by simp
    moreover have "pow2 (- k) < pow2 (- k + 1)" by (rule pow2_strict_mono) simp
    ultimately have "pow2 (- k) \<le> x \<and> x < pow2 (- k + 1)" by simp
    then show ?thesis by (simp only: e)
  next
    case False
    then have e: "expo x = - k - 1" using assms by (simp add: expo_def k_def Let_def)
    have "x * pow2 k < 1" using False le1 pk by simp
    then have "x * pow2 k < pow2 (- k) * pow2 k" using neg(1) by simp
    then have hi: "x < pow2 (- k)" using pow2_pos [of k] by simp
    have "pow2 (- k - 1) * pow2 (k + 1) < x * pow2 (k + 1)" using gt1 neg(2) by simp
    then have "pow2 (- k - 1) < x" using pow2_pos [of "k + 1"] by simp
    with hi show ?thesis by (simp add: e)
  qed
qed

lemma expo_bounds:
  assumes "0 < x"
  shows "pow2 (expo x) \<le> x" and "x < pow2 (expo x + 1)"
  using assms expo_bounds_ge1 [of x] expo_bounds_lt1 [of x]
  by (cases "1 \<le> x"; simp)+

lemma expo_unique:
  assumes "0 < x" "pow2 e \<le> x" "x < pow2 (e + 1)"
  shows "expo x = e"
proof -
  have "pow2 e < pow2 (expo x + 1)" using assms(2) expo_bounds(2) [OF assms(1)] by simp
  then have a: "e < expo x + 1" by (rule pow2_less_cancel)
  have "pow2 (expo x) < pow2 (e + 1)" using assms(3) expo_bounds(1) [OF assms(1)] by simp
  then have "expo x < e + 1" by (rule pow2_less_cancel)
  with a show ?thesis by simp
qed

lemma expo_mono:
  assumes "0 < x" "x \<le> y"
  shows "expo x \<le> expo y"
proof -
  have "0 < y" using assms by simp
  then have "pow2 (expo x) < pow2 (expo y + 1)"
    using expo_bounds(1) [OF assms(1)] expo_bounds(2) [of y] assms(2) by simp
  then have "expo x < expo y + 1" by (rule pow2_less_cancel)
  then show ?thesis by simp
qed

lemma rne_of_int: "rne (of_int n) = n"
  by (simp add: rne_def)

lemma rne_mono:
  assumes "y \<le> z"
  shows "rne y \<le> rne z"
proof (cases "\<lfloor>y\<rfloor> = \<lfloor>z\<rfloor>")
  case True
  then show ?thesis using assms by (auto simp: rne_def Let_def)
next
  case False
  then have "\<lfloor>y\<rfloor> < \<lfloor>z\<rfloor>" using floor_mono [OF assms] by simp
  moreover have "rne y \<le> \<lfloor>y\<rfloor> + 1" by (simp add: rne_def Let_def)
  moreover have "\<lfloor>z\<rfloor> \<le> rne z" by (simp add: rne_def Let_def)
  ultimately show ?thesis by simp
qed


lemma rne_nonneg: "0 \<le> y \<Longrightarrow> 0 \<le> rne y"
  using rne_mono [of 0 y] rne_of_int [of 0] by simp

lemma quantum_pos: "0 < quantum a"
  by (simp add: quantum_def pow2_pos)

lemma pow2_53: "pow2 (e + 1) = 2 ^ 53 * pow2 (e - 52)"
proof -
  have p: "pow2 53 = 2 ^ 53" by (simp add: pow2_def)
  have eq: "e + 1 = 53 + (e - 52)" by linarith
  show ?thesis by (subst eq) (simp only: pow2_add p)
qed

lemma pow2_52: "pow2 e = 2 ^ 52 * pow2 (e - 52)"
proof -
  have p: "pow2 52 = 2 ^ 52" by (simp add: pow2_def)
  have eq: "e = 52 + (e - 52)" by linarith
  show ?thesis by (subst eq) (simp only: pow2_add p)
qed

lemma scaled_less:
  assumes "0 < a"
  shows "a / quantum a < 2 ^ 53"
proof -
  have "a < pow2 (expo a + 1)" by (rule expo_bounds(2) [OF assms])
  also have "\<dots> \<le> pow2 (bexp a + 1)" by (rule pow2_mono) (simp add: bexp_def)
  also have "\<dots> = 2 ^ 53 * quantum a" by (simp add: pow2_53 quantum_def)
  finally show ?thesis using quantum_pos [of a] by (simp add: field_simps)
qed

lemma scaled_ge:
  assumes "0 < a" "- 1022 \<le> expo a"
  shows "2 ^ 52 \<le> a / quantum a"
proof -
  have b: "bexp a = expo a" using assms(2) by (simp add: bexp_def)
  have "2 ^ 52 * quantum a = pow2 (expo a)" using pow2_52 [of "expo a"] by (simp add: quantum_def b)
  also have "\<dots> \<le> a" by (rule expo_bounds(1) [OF assms(1)])
  finally show ?thesis using quantum_pos [of a] by (simp add: field_simps)
qed

lemma mant_le:
  assumes "0 < a"
  shows "rne (a / quantum a) \<le> 2 ^ 53"
proof -
  have "rne (a / quantum a) \<le> rne (of_int (2 ^ 53))"
    using scaled_less [OF assms] by (intro rne_mono) simp
  then show ?thesis by (simp only: rne_of_int)
qed

lemma mant_ge:
  assumes "0 < a" "- 1022 \<le> expo a"
  shows "2 ^ 52 \<le> rne (a / quantum a)"
proof -
  have "rne (of_int (2 ^ 52)) \<le> rne (a / quantum a)"
    using scaled_ge [OF assms] by (intro rne_mono) simp
  then show ?thesis by (simp only: rne_of_int)
qed

lemma nearest_nonneg: "0 < a \<Longrightarrow> 0 \<le> nearest a"
  using quantum_pos [of a] by (simp add: nearest_def rne_nonneg)

lemma nearest_le:
  assumes "0 < a"
  shows "nearest a \<le> pow2 (bexp a + 1)"
proof -
  have "(of_int (rne (a / quantum a)) :: rat) \<le> of_int (2 ^ 53)"
    using mant_le [OF assms] by (simp only: of_int_le_iff)
  then have "nearest a \<le> 2 ^ 53 * quantum a"
    using quantum_pos [of a] by (simp add: nearest_def)
  then show ?thesis by (simp add: pow2_53 quantum_def)
qed

lemma nearest_ge:
  assumes "0 < a" "- 1022 \<le> expo a"
  shows "pow2 (expo a) \<le> nearest a"
proof -
  have b: "bexp a = expo a" using assms(2) by (simp add: bexp_def)
  have "(of_int (2 ^ 52) :: rat) \<le> of_int (rne (a / quantum a))"
    using mant_ge [OF assms] by (simp only: of_int_le_iff)
  then have "2 ^ 52 * quantum a \<le> nearest a"
    using quantum_pos [of a] by (simp add: nearest_def)
  then show ?thesis using pow2_52 [of "expo a"] by (simp add: quantum_def b)
qed

lemma nearest_mono:
  assumes "0 < x" "x \<le> y"
  shows "nearest x \<le> nearest y"
proof -
  have y: "0 < y" using assms by simp
  have le: "bexp x \<le> bexp y" using expo_mono [OF assms] by (simp add: bexp_def)
  show ?thesis
  proof (cases "bexp x = bexp y")
    case True
    then have q: "quantum x = quantum y" by (simp add: quantum_def)
    have "x / quantum y \<le> y / quantum y"
      using assms(2) quantum_pos [of y] by (simp add: divide_right_mono)
    then have "rne (x / quantum y) \<le> rne (y / quantum y)" by (rule rne_mono)
    then have "(of_int (rne (x / quantum y)) :: rat) \<le> of_int (rne (y / quantum y))"
      by (simp only: of_int_le_iff)
    then show ?thesis using quantum_pos [of y] by (simp add: nearest_def q)
  next
    case False
    with le have lt: "bexp x < bexp y" by simp
    then have ny: "- 1022 \<le> expo y" "bexp y = expo y" by (auto simp: bexp_def)
    have "nearest x \<le> pow2 (bexp x + 1)" by (rule nearest_le [OF assms(1)])
    also have "\<dots> \<le> pow2 (expo y)" using lt ny(2) by (intro pow2_mono) simp
    also have "\<dots> \<le> nearest y" by (rule nearest_ge [OF y ny(1)])
    finally show ?thesis .
  qed
qed

lemma nearest_exact:
  assumes "a = of_int n * quantum a"
  shows "nearest a = a"
proof -
  have "a / quantum a = of_int n" using assms quantum_pos [of a] by (simp add: field_simps)
  then have "rne (a / quantum a) = n" by (simp only: rne_of_int)
  then show ?thesis using assms by (simp add: nearest_def)
qed


lemma pow2_plus53: "2 ^ 53 * pow2 k = pow2 (k + 53)"
proof -
  have p: "pow2 53 = 2 ^ 53" by (simp add: pow2_def)
  have "pow2 (k + 53) = pow2 k * pow2 53" by (rule pow2_add)
  then show ?thesis by (simp only: p mult.commute)
qed

lemma nearest_repr:
  assumes "0 < m" "m < 2 ^ 53" "- 1074 \<le> k" "a = of_int m * pow2 k"
  shows "nearest a = a"
proof -
  have a: "0 < a" using assms(1,4) pow2_pos [of k] by simp
  have "(of_int m :: rat) < of_int (2 ^ 53)" using assms(2) by (simp only: of_int_less_iff)
  then have "a < 2 ^ 53 * pow2 k" using assms(4) pow2_pos [of k] by simp
  also have "\<dots> = pow2 (k + 53)" by (rule pow2_plus53)
  finally have "pow2 (expo a) < pow2 (k + 53)" using expo_bounds(1) [OF a] by simp
  then have "expo a < k + 53" by (rule pow2_less_cancel)
  then have le: "bexp a - 52 \<le> k" using assms(3) by (simp add: bexp_def)
  define d where "d = nat (k - (bexp a - 52))"
  have "pow2 k = pow2 (int d + (bexp a - 52))" using le by (simp add: d_def)
  also have "\<dots> = 2 ^ d * quantum a" by (simp only: pow2_add pow2_nat quantum_def)
  finally have "a = of_int (m * 2 ^ d) * quantum a" using assms(4) by simp
  then show ?thesis by (rule nearest_exact)
qed

lemma nearest_idem:
  assumes "0 < x" "0 < nearest x"
  shows "nearest (nearest x) = nearest x"
proof -
  let ?m = "rne (x / quantum x)"
  have m0: "0 < ?m"
  proof (rule ccontr)
    assume "\<not> 0 < ?m"
    then have "?m = 0" using rne_nonneg [of "x / quantum x"] assms(1) quantum_pos [of x] by simp
    then show False using assms(2) by (simp add: nearest_def)
  qed
  have k: "- 1074 \<le> bexp x - 52" by (simp add: bexp_def)
  show ?thesis
  proof (cases "?m < 2 ^ 53")
    case True
    show ?thesis
      by (rule nearest_repr [OF m0 True k]) (simp only: nearest_def quantum_def)
  next
    case False
    then have m: "?m = 2 ^ 53" using mant_le [OF assms(1)] by simp
    have "nearest x = 2 ^ 53 * quantum x" by (simp add: nearest_def m)
    then have "nearest x = of_int 1 * pow2 (bexp x + 1)"
      by (simp add: pow2_53 quantum_def)
    then show ?thesis
      by (intro nearest_repr [of 1 "bexp x + 1"]) (simp_all add: bexp_def)
  qed
qed

lemma round64_neg: "round64 (- x) = jneg (round64 x)"
  by (simp add: round64_def)

lemma round64_nonneg:
  assumes "0 \<le> x"
  shows "round64 x = PInf \<or> (\<exists>y. round64 x = Fin y \<and> 0 \<le> y)"
  using assms nearest_nonneg [of x] by (auto simp: round64_def)

lemma round64_mono:
  assumes "0 \<le> x" "x \<le> y"
  shows "jle (round64 x) (round64 y)"
proof (cases "x = 0")
  case True
  then show ?thesis using assms nearest_nonneg [of y] by (auto simp: round64_def jle_def)
next
  case False
  then have "0 < x" using assms by simp
  then show ?thesis using assms nearest_mono [of x y] by (auto simp: round64_def jle_def)
qed

lemma round64_idem:
  assumes "round64 x = Fin y"
  shows "round64 y = Fin y"
proof -
  have pos: "round64 y = Fin y" if "0 < x" "round64 x = Fin y" for x y
  proof -
    from that have y: "y = nearest x" "nearest x < pow2 1024"
      by (auto simp: round64_def split: if_splits)
    show ?thesis
    proof (cases "y = 0")
      case True
      then show ?thesis by (simp add: round64_def)
    next
      case False
      then have "0 < nearest x" using nearest_nonneg [OF that(1)] y(1) by simp
      then have "nearest y = y" using nearest_idem [OF that(1)] y(1) by simp
      then show ?thesis using y False \<open>0 < nearest x\<close> by (simp add: round64_def)
    qed
  qed
  consider "x = 0" | "0 < x" | "x < 0" by linarith
  then show ?thesis
  proof cases
    case 1
    then show ?thesis using assms by (simp add: round64_def)
  next
    case 2
    then show ?thesis using pos assms by simp
  next
    case 3
    then have "round64 (- x) = Fin (- y)" using assms by (simp add: round64_neg)
    then have "round64 (- y) = Fin (- y)" using pos [of "- x" "- y"] 3 by simp
    then have "jneg (round64 y) = Fin (- y)" by (simp add: round64_neg)
    then show ?thesis by (cases "round64 y") auto
  qed
qed

lemma round64_exact_int:
  assumes "\<bar>n\<bar> \<le> 2 ^ 53"
  shows "round64 (of_int n) = Fin (of_int n)"
proof -
  have pos: "round64 (of_int n) = Fin (of_int n)" if "0 < n" "n \<le> 2 ^ 53" for n :: int
  proof -
    have "nearest (of_int n) = of_int n"
    proof (cases "n < 2 ^ 53")
      case True
      show ?thesis by (rule nearest_repr [OF that(1) True, of 0]) (simp_all add: pow2_def)
    next
      case False
      then have "n = 2 ^ 53" using that by simp
      then have "(of_int n :: rat) = of_int 1 * pow2 53" by (simp add: pow2_def)
      then show ?thesis by (intro nearest_repr [of 1 53]) simp_all
    qed
    moreover have "(of_int n :: rat) \<le> of_int (2 ^ 53)" using that(2) by (simp only: of_int_le_iff)
    then have "(of_int n :: rat) < pow2 1024" by (simp add: pow2_def)
    ultimately show ?thesis using that(1) by (simp add: round64_def)
  qed
  consider "n = 0" | "0 < n" | "n < 0" by linarith
  then show ?thesis
  proof cases
    case 1
    then show ?thesis by (simp add: round64_def)
  next
    case 2
    then show ?thesis using pos assms by simp
  next
    case 3
    then have "round64 (of_int (- n)) = Fin (of_int (- n))" using pos [of "- n"] assms by simp
    then have "jneg (round64 (of_int n)) = Fin (- of_int n)" by (simp add: round64_neg)
    then show ?thesis by (cases "round64 (of_int n)") auto
  qed
qed

lemma round64_numeral:
  "numeral k \<le> (9007199254740992 :: int) \<Longrightarrow> round64 (numeral k) = Fin (numeral k)"
  using round64_exact_int [of "numeral k"] by simp

section \<open>Properties of validateNumericInput and calculateRowTotal\<close>

lemma round64_nonNegative: "0 \<le> x \<Longrightarrow> nonNegative (round64 x)"
  using round64_nonneg [of x] by (auto simp: nonNegative_def)

lemma jmul_nonNegative:
  assumes "nonNegative a" "0 < b"
  shows "nonNegative (jmul a (Fin b))"
proof (cases a)
  case (Fin x)
  then have "0 \<le> x * b" using assms by (simp add: nonNegative_def)
  then show ?thesis using Fin by (simp add: round64_nonNegative)
qed (use assms in \<open>auto simp: nonNegative_def signedInf_def\<close>)

lemma guarded_total:
  assumes "nonNegative t"
  shows "\<exists>n. guarded t = Fin n \<and> 0 \<le> n \<and> n \<le> 9007199254740991"
  using assms
  by (cases t) (auto simp: guarded_def overflows_def nonNegative_def isFinite_def jgt_def MAX_SAFE_INTEGER_def)

lemma validate_numericValue:
  "validateNumericInput v mn mx =
     (if isNaN (numericValue v) then \<lparr>isValid = False, sanitizedValue = Fin 0\<rparr>
      else if jlt (numericValue v) mn \<or> jgt (numericValue v) mx
        then \<lparr>isValid = False, sanitizedValue = numericValue v\<rparr>
      else \<lparr>isValid = True, sanitizedValue = numericValue v\<rparr>)"
  by (simp add: validateNumericInput_def numericValue_def Let_def)

lemma present_iff:
  "present v (Fin m) \<longleftrightarrow> (\<exists>x. numericValue v = Fin x \<and> 0 < x \<and> x \<le> m)"
  by (cases "numericValue v")
    (auto simp: present_def validate_numericValue isNaN_def jgt_def)

lemma present_value:
  assumes "numericValue v = Fin x" "0 < x" "x \<le> m"
  shows "present v (Fin m)"
    and "sanitizedValue (validateNumericInput v (Fin 0) (Fin m)) = Fin x"
  using assms by (auto simp: present_def validate_numericValue isNaN_def jgt_def)

lemma calculateRowTotal_present:
  "calculateRowTotal width len quantity unitPrice =
     (if areaPriced width len quantity unitPrice
      then guarded (jmul (jmul (jmul
             (sanitizedValue (validateNumericInput width (Fin 0) MAX_ITEM_DIMENSIONS))
             (sanitizedValue (validateNumericInput len (Fin 0) MAX_ITEM_DIMENSIONS)))
             (sanitizedValue (validateNumericInput quantity (Fin 0) MAX_QUANTITY_PER_ITEM)))
             (sanitizedValue (validateNumericInput unitPrice (Fin 0) MAX_PRICE_PER_ITEM)))
      else if flatPriced width len quantity unitPrice
      then guarded (jmul
             (sanitizedValue (validateNumericInput quantity (Fin 0) MAX_QUANTITY_PER_ITEM))
             (sanitizedValue (validateNumericInput unitPrice (Fin 0) MAX_PRICE_PER_ITEM)))
      else Fin 0)"
  by (simp only: calculateRowTotal_def present_def areaPriced_def flatPriced_def guarded_def Let_def)

lemma present_positive:
  assumes "present v (Fin m)"
  obtains x where "sanitizedValue (validateNumericInput v (Fin 0) (Fin m)) = Fin x" "0 < x" "x \<le> m"
  using assms present_iff [of v m] present_value(2) [of v _ m] by blast

lemma calculateRowTotal_range:
  "\<exists>n. calculateRowTotal width len quantity unitPrice = Fin n \<and> 0 \<le> n \<and> n \<le> 9007199254740991"
proof -
  let ?D = "MAX_ITEM_DIMENSIONS" and ?Q = "MAX_QUANTITY_PER_ITEM" and ?P = "MAX_PRICE_PER_ITEM"
  consider
    (area) "areaPriced width len quantity unitPrice"
  | (flat) "\<not> areaPriced width len quantity unitPrice" "flatPriced width len quantity unitPrice"
  | (none) "\<not> areaPriced width len quantity unitPrice" "\<not> flatPriced width len quantity unitPrice"
    by blast
  then show ?thesis
  proof cases
    case area
    then have pr: "present width ?D" "present len ?D" "present quantity ?Q" "present unitPrice ?P"
      by (simp_all add: areaPriced_def)
    from pr(1) obtain w where w: "sanitizedValue (validateNumericInput width (Fin 0) ?D) = Fin w" "0 < w"
      unfolding MAX_ITEM_DIMENSIONS_def by (rule present_positive)
    from pr(2) obtain l where l: "sanitizedValue (validateNumericInput len (Fin 0) ?D) = Fin l" "0 < l"
      unfolding MAX_ITEM_DIMENSIONS_def by (rule present_positive)
    from pr(3) obtain q where q: "sanitizedValue (validateNumericInput quantity (Fin 0) ?Q) = Fin q" "0 < q"
      unfolding MAX_QUANTITY_PER_ITEM_def by (rule present_positive)
    from pr(4) obtain p where p: "sanitizedValue (validateNumericInput unitPrice (Fin 0) ?P) = Fin p" "0 < p"
      unfolding MAX_PRICE_PER_ITEM_def by (rule present_positive)
    have "nonNegative (Fin w)" using w(2) by (simp add: nonNegative_def)
    then have "nonNegative (jmul (jmul (jmul (Fin w) (Fin l)) (Fin q)) (Fin p))"
      using l(2) q(2) p(2) by (intro jmul_nonNegative)
    from guarded_total [OF this] show ?thesis
      by (simp only: calculateRowTotal_present area if_True w(1) l(1) q(1) p(1))
  next
    case flat
    then have pr: "present quantity ?Q" "present unitPrice ?P"
      by (simp_all add: flatPriced_def)
    from pr(1) obtain q where q: "sanitizedValue (validateNumericInput quantity (Fin 0) ?Q) = Fin q" "0 < q"
      unfolding MAX_QUANTITY_PER_ITEM_def by (rule present_positive)
    from pr(2) obtain p where p: "sanitizedValue (validateNumericInput unitPrice (Fin 0) ?P) = Fin p" "0 < p"
      unfolding MAX_PRICE_PER_ITEM_def by (rule present_positive)
    have "nonNegative (Fin q)" using q(2) by (simp add: nonNegative_def)
    then have "nonNegative (jmul (Fin q) (Fin p))"
      using p(2) by (intro jmul_nonNegative)
    from guarded_total [OF this] show ?thesis
      using flat by (simp only: calculateRowTotal_present if_True if_False q(1) p(1))
  next
    case none
    then show ?thesis by (simp add: calculateRowTotal_present)
  qed
qed

section \<open>Evaluation of concrete inputs\<close>

lemmas char_class_defs = isSpace_def isDigit_def isUpper_def isLower_def isWord_def lower_def

lemmas sanitize_eval = trim_def stripAngles_def startsWithCI_def matchHandler_def char_class_defs

lemmas literal_eval = strDecimalLiteral_def digitsVal_def digitVal_def pow10_def exponentPart_def
  signedInteger_def char_class_defs

lemma numericValue_decimal:
  assumes "sanitizeInput (JString (String v)) = s"
    and "strDecimalLiteral (dropWhile isSpace s) = DecimalLiteral x"
    and "round64 x = y"
  shows "numericValue v = y"
  using assms by (simp add: numericValue_def parseFloat_def)

lemma numericValue_none:
  assumes "sanitizeInput (JString (String v)) = s"
    and "strDecimalLiteral (dropWhile isSpace s) = NoLiteral"
  shows "numericValue v = NaN"
  using assms by (simp add: numericValue_def parseFloat_def)

lemma nv_10: "numericValue (JString ''10'') = Fin 10"
proof (rule numericValue_decimal)
  show "sanitizeInput (JString (String (JString ''10''))) = ''10''" by (simp add: sanitize_eval)
  show "strDecimalLiteral (dropWhile isSpace ''10'') = DecimalLiteral 10" by (simp add: literal_eval)
  show "round64 10 = Fin 10" by (simp add: round64_numeral)
qed

lemma nv_5: "numericValue (JString ''5'') = Fin 5"
proof (rule numericValue_decimal)
  show "sanitizeInput (JString (String (JString ''5''))) = ''5''" by (simp add: sanitize_eval)
  show "strDecimalLiteral (dropWhile isSpace ''5'') = DecimalLiteral 5" by (simp add: literal_eval)
  show "round64 5 = Fin 5" by (simp add: round64_numeral)
qed

lemma nv_2: "numericValue (JString ''2'') = Fin 2"
proof (rule numericValue_decimal)
  show "sanitizeInput (JString (String (JString ''2''))) = ''2''" by (simp add: sanitize_eval)
  show "strDecimalLiteral (dropWhile isSpace ''2'') = DecimalLiteral 2" by (simp add: literal_eval)
  show "round64 2 = Fin 2" by (simp add: round64_numeral)
qed

lemma nv_3: "numericValue (JString ''3'') = Fin 3"
proof (rule numericValue_decimal)
  show "sanitizeInput (JString (String (JString ''3''))) = ''3''" by (simp add: sanitize_eval)
  show "strDecimalLiteral (dropWhile isSpace ''3'') = DecimalLiteral 3" by (simp add: literal_eval)
  show "round64 3 = Fin 3" by (simp add: round64_numeral)
qed

lemma nv_empty: "numericValue (JString []) = NaN"
proof (rule numericValue_none)
  show "sanitizeInput (JString (String (JString []))) = []" by (simp add: sanitize_eval)
  show "strDecimalLiteral (dropWhile isSpace []) = NoLiteral" by (simp add: literal_eval)
qed

lemma nv_20: "numericValue (JString ''20'') = Fin 20"
proof (rule numericValue_decimal)
  show "sanitizeInput (JString (String (JString ''20''))) = ''20''" by (simp add: sanitize_eval)
  show "strDecimalLiteral (dropWhile isSpace ''20'') = DecimalLiteral 20" by (simp add: literal_eval)
  show "round64 20 = Fin 20" by (simp add: round64_numeral)
qed

lemma nv_20000: "numericValue (JString ''20000'') = Fin 20000"
proof (rule numericValue_decimal)
  show "sanitizeInput (JString (String (JString ''20000''))) = ''20000''" by (simp add: sanitize_eval)
  show "strDecimalLiteral (dropWhile isSpace ''20000'') = DecimalLiteral 20000" by (simp add: literal_eval)
  show "round64 20000 = Fin 20000" by (simp add: round64_numeral)
qed

lemma nv_abc: "numericValue (JString ''abc'') = NaN"
proof (rule numericValue_none)
  show "sanitizeInput (JString (String (JString ''abc''))) = ''abc''" by (simp add: sanitize_eval)
  show "strDecimalLiteral (dropWhile isSpace ''abc'') = NoLiteral" by (simp add: literal_eval)
qed

lemma not_present_NaN: "numericValue v = NaN \<Longrightarrow> \<not> present v mx"
  by (simp add: present_def validate_numericValue isNaN_def jgt_def)

section \<open>Properties of the submit handler\<close>

lemma scanRow_eq:
  "scanRow index r st =
     st\<lparr>items := items st @ (if kept r then [lineItemOf r] else []),
        hasError := hasError st \<or> rowInError r,
        validationErrors := validationErrors st @ (if mixedDimensions r then [index + 1] else [])\<rparr>"
  unfolding scanRow_def Let_def kept_def lineItemOf_def rowInError_def
      mixedDimensions_def lacksQuantityOrPrice_def present_def itemName_def [symmetric]
  by (cases st) auto

lemma scanRows_eq:
  "scanRows index rs st =
     st\<lparr>items := items st @ map lineItemOf (filter kept rs),
        hasError := hasError st \<or> (\<exists>r \<in> set rs. rowInError r),
        validationErrors := validationErrors st
           @ map (\<lambda>(k, r). k + 1) (filter (\<lambda>(k, r). mixedDimensions r) (enumerate index rs))\<rparr>"
proof (induction rs arbitrary: index st)
  case Nil
  then show ?case by simp
next
  case (Cons r rs)
  show ?case by (simp add: Cons.IH scanRow_eq) 
qed


lemma salesFormSubmit_eq:
  "salesFormSubmit w f =
     (if rateLimited w then RateLimited
      else if MAX_ITEMS_PER_SALE < length (rows f) then TooManyItems
      else if filter kept (rows f) = [] then NoItems
      else if \<exists>r \<in> set (rows f). rowInError r
        then ValidationError (validationErrors (scanRows 0 (rows f) emptyScan))
      else if \<not> apiClient w then NotConfigured
      else CreateSale
             \<lparr>sale_id = randomId w,
              sale_customername = customerName f,
              sale_customerphone = customerPhone f,
              sale_date = isoDate w,
              sale_items = map lineItemOf (filter kept (rows f)),
              sale_discount = orZero (parseFloat (discountValue f)),
              sale_suptotal = orZero (parseFloat (supTotalValue f)),
              sale_total = orZero (parseFloat (totalValue f)),
              sale_status = ''Pending''\<rparr>)"
  by (simp add: salesFormSubmit_def Let_def scanRows_eq emptyScan_def)

lemma rowInError_not_priced:
  assumes "rowInError r"
  shows "\<not> areaPriced (JString (widthField r)) (JString (lengthField r))
           (JString (quantityField r)) (JString (unitPriceField r))"
    and "\<not> flatPriced (JString (widthField r)) (JString (lengthField r))
           (JString (quantityField r)) (JString (unitPriceField r))"
  using assms
  by (auto simp: rowInError_def mixedDimensions_def lacksQuantityOrPrice_def
      areaPriced_def flatPriced_def)

lemma rowTotal_error: "rowInError r \<Longrightarrow> rowTotal r = Fin 0"
  using rowInError_not_priced [of r]
  by (simp add: rowTotal_def calculateRowTotal_present)

lemma mixed_row_listed:
  assumes "r \<in> set rs" "mixedDimensions r"
  shows "\<exists>k < length rs. rs ! k = r
           \<and> k + 1 \<in> set (validationErrors (scanRows 0 rs emptyScan))"
proof -
  from assms(1) obtain k where k: "k < length rs" "rs ! k = r"
    by (auto simp: in_set_conv_nth)
  then have "(k, r) \<in> set (enumerate 0 rs)"
    by (simp add: in_set_enumerate_eq)
  then have "(k, r) \<in> set (filter (\<lambda>(k, r). mixedDimensions r) (enumerate 0 rs))"
    using assms(2) by simp
  then have "k + 1 \<in> set (map (\<lambda>(k, r). k + 1)
               (filter (\<lambda>(k, r). mixedDimensions r) (enumerate 0 rs)))"
    by (force simp del: set_filter)
  then show ?thesis using k by (auto simp: scanRows_eq emptyScan_def)
qed

lemma nv_0: "numericValue (JString ''0'') = Fin 0"
proof (rule numericValue_decimal)
  show "sanitizeInput (JString (String (JString ''0''))) = ''0''" by (simp add: sanitize_eval)
  show "strDecimalLiteral (dropWhile isSpace ''0'') = DecimalLiteral 0" by (simp add: literal_eval)
  show "round64 0 = Fin 0" by (simp add: round64_def)
qed

lemma nv_1: "numericValue (JString ''1'') = Fin 1"
proof (rule numericValue_decimal)
  show "sanitizeInput (JString (String (JString ''1''))) = ''1''" by (simp add: sanitize_eval)
  show "strDecimalLiteral (dropWhile isSpace ''1'') = DecimalLiteral 1" by (simp add: literal_eval)
  show "round64 1 = Fin 1" using round64_exact_int [of 1] by simp
qed

lemma nv_10000: "numericValue (JString ''10000'') = Fin 10000"
proof (rule numericValue_decimal)
  show "sanitizeInput (JString (String (JString ''10000''))) = ''10000''" by (simp add: sanitize_eval)
  show "strDecimalLiteral (dropWhile isSpace ''10000'') = DecimalLiteral 10000" by (simp add: literal_eval)
  show "round64 10000 = Fin 10000" by (simp add: round64_numeral)
qed

lemma nv_1000000: "numericValue (JString ''1000000'') = Fin 1000000"
proof (rule numericValue_decimal)
  show "sanitizeInput (JString (String (JString ''1000000''))) = ''1000000''" by (simp add: sanitize_eval)
  show "strDecimalLiteral (dropWhile isSpace ''1000000'') = DecimalLiteral 1000000" by (simp add: literal_eval)
  show "round64 1000000 = Fin 1000000" by (simp add: round64_numeral)
qed

lemma not_present_nonpositive: "numericValue v = Fin x \<Longrightarrow> x \<le> 0 \<Longrightarrow> \<not> present v mx"
  by (simp add: present_def validate_numericValue isNaN_def jgt_def)

lemma itemName_Banner: "sanitizeInput (JString ''Banner'') = ''Banner''"
  by (simp add: sanitize_eval)

lemma mixedRow_facts:
  "present (JString ''10'') MAX_ITEM_DIMENSIONS"
  "\<not> present (JString ''0'') MAX_ITEM_DIMENSIONS"
  using present_value(1) [OF nv_10, of 10000] not_present_nonpositive [OF nv_0]
  by (simp_all add: MAX_ITEM_DIMENSIONS_def)

section \<open>Rows whose product overflows\<close>

lemma round64_repr:
  assumes "0 < m" "m < 2 ^ 53" "- 1074 \<le> k" "k \<le> 970"
  shows "round64 (of_int m * pow2 k) = Fin (of_int m * pow2 k)"
proof -
  let ?a = "(of_int m :: rat) * pow2 k"
  have a: "0 < ?a" using assms(1) pow2_pos [of k] by simp
  have n: "nearest ?a = ?a" by (rule nearest_repr [OF assms(1-3) refl])
  have "(of_int m :: rat) < of_int (2 ^ 53)" using assms(2) by (simp only: of_int_less_iff)
  then have "?a < 2 ^ 53 * pow2 k" using pow2_pos [of k] by simp
  also have "\<dots> = pow2 (k + 53)" by (rule pow2_plus53)
  also have "\<dots> \<le> pow2 1024" using assms(4) by (intro pow2_mono) simp
  finally show ?thesis using a n by (simp add: round64_def)
qed

lemma round64_1e18: "round64 1000000000000000000 = Fin 1000000000000000000"
proof -
  have "round64 (of_int 3814697265625 * pow2 18) = Fin (of_int 3814697265625 * pow2 18)"
    by (rule round64_repr) simp_all
  then show ?thesis by (simp add: pow2_def)
qed

lemma present_sanitizedValue:
  "present v mx \<Longrightarrow> sanitizedValue (validateNumericInput v (Fin 0) mx) = numericValue v"
  by (auto simp: present_def validate_numericValue split: if_splits)

lemma rowTotal_guarded:
  assumes "areaPriced (JString (widthField r)) (JString (lengthField r))
             (JString (quantityField r)) (JString (unitPriceField r))
           \<or> flatPriced (JString (widthField r)) (JString (lengthField r))
             (JString (quantityField r)) (JString (unitPriceField r))"
  shows "rowTotal r = guarded (rowProduct r)"
  using assms
  by (auto simp: rowTotal_def calculateRowTotal_present rowProduct_def areaPriced_def
      flatPriced_def present_sanitizedValue)

lemma priced_not_in_error:
  assumes "areaPriced (JString (widthField r)) (JString (lengthField r))
             (JString (quantityField r)) (JString (unitPriceField r))
           \<or> flatPriced (JString (widthField r)) (JString (lengthField r))
             (JString (quantityField r)) (JString (unitPriceField r))"
  shows "\<not> rowInError r"
  using assms
  by (auto simp: rowInError_def mixedDimensions_def lacksQuantityOrPrice_def
      areaPriced_def flatPriced_def)

lemma overflowRow_priced:
  "areaPriced (JString (widthField overflowRow)) (JString (lengthField overflowRow))
     (JString (quantityField overflowRow)) (JString (unitPriceField overflowRow))"
  using present_value(1) [OF nv_10000, of 10000] present_value(1) [OF nv_1000000, of 1000000]
  by (simp add: areaPriced_def overflowRow_def MAX_ITEM_DIMENSIONS_def
      MAX_QUANTITY_PER_ITEM_def MAX_PRICE_PER_ITEM_def)

lemma overflowRow_product: "rowProduct overflowRow = Fin 1000000000000000000"
  using present_value(1) [OF nv_10000, of 10000]
  by (simp add: rowProduct_def overflowRow_def MAX_ITEM_DIMENSIONS_def nv_10000 nv_1000000
      round64_numeral round64_1e18)

lemma overflowRow_overflows: "overflows (rowProduct overflowRow)"
  by (simp add: overflowRow_product overflows_def isFinite_def jgt_def MAX_SAFE_INTEGER_def)

lemma overflowRow_kept: "kept overflowRow"
  by (simp add: kept_def overflowRow_def)

lemma exampleWindow_open: "\<not> rateLimited exampleWindow" "apiClient exampleWindow"
  by (simp_all add: rateLimited_def exampleWindow_def)

section \<open>Accepted submissions\<close>

lemma salesFormSubmit_outcome:
  "salesFormSubmit w f =
     (if rateLimited w then RateLimited
      else if MAX_ITEMS_PER_SALE < length (rows f) then TooManyItems
      else if filter kept (rows f) = [] then NoItems
      else if \<exists>r \<in> set (rows f). rowInError r
        then ValidationError (validationErrors (scanRows 0 (rows f) emptyScan))
      else if \<not> apiClient w then NotConfigured
      else CreateSale (saleOf w f))"
  by (simp only: salesFormSubmit_eq saleOf_def)

lemma accepted_iff:
  "accepted (salesFormSubmit w f) \<longleftrightarrow>
     \<not> rateLimited w \<and> \<not> MAX_ITEMS_PER_SALE < length (rows f) \<and> filter kept (rows f) \<noteq> []
     \<and> \<not> (\<exists>r \<in> set (rows f). rowInError r) \<and> apiClient w"
  by (cases "rateLimited w"; cases "MAX_ITEMS_PER_SALE < length (rows f)";
      cases "filter kept (rows f) = []"; cases "\<exists>r \<in> set (rows f). rowInError r";
      cases "apiClient w")
    (simp_all only: salesFormSubmit_outcome accepted_def if_True if_False outcome.case
      simp_thms not_True_eq_False not_False_eq_True)

lemma accepted_sale:
  assumes "salesFormSubmit w f = CreateSale s"
  shows "s = saleOf w f"
proof -
  have "accepted (salesFormSubmit w f)" using assms by (simp add: accepted_def)
  then have conds: "\<not> rateLimited w" "\<not> MAX_ITEMS_PER_SALE < length (rows f)"
      "filter kept (rows f) \<noteq> []" "\<not> (\<exists>r \<in> set (rows f). rowInError r)" "apiClient w"
    unfolding accepted_iff by blast+
  have "salesFormSubmit w f = CreateSale (saleOf w f)"
    unfolding salesFormSubmit_outcome using conds by (simp only: if_False if_True not_True_eq_False)
  with assms show ?thesis by simp
qed

section \<open>Properties of sanitizeInput\<close>

lemma set_stripScheme: "set (stripScheme s) \<subseteq> set s"
proof (induction s rule: stripScheme.induct)
  case 1
  then show ?case by simp
next
  case (2 c cs)
  show ?case
  proof (cases "startsWithCI ''javascript:'' (c # cs)")
    case True
    then have "set (stripScheme (drop 10 cs)) \<subseteq> set (drop 10 cs)" by (rule "2.IH"(1))
    also have "\<dots> \<subseteq> set cs" by (rule set_drop_subset)
    finally show ?thesis using True by auto
  next
    case False
    then have "set (stripScheme cs) \<subseteq> set cs" by (rule "2.IH"(2))
    then show ?thesis using False by auto
  qed
qed

lemma matchHandler_set: "matchHandler s = Some r \<Longrightarrow> set r \<subseteq> set s"
proof -
  assume h: "matchHandler s = Some r"
  then obtain a b t where s: "s = a # b # t"
    by (auto simp: matchHandler_def split: list.splits)
  from h s obtain e where "dropWhile isWord t = e # r"
    by (auto simp: matchHandler_def split: list.splits if_splits)
  then have "set r \<subseteq> set (dropWhile isWord t)" by auto
  also have "\<dots> \<subseteq> set t" by (auto dest: set_dropWhileD)
  finally show ?thesis using s by auto
qed

lemma set_stripHandlers: "set (stripHandlers s) \<subseteq> set s"
proof (induction s rule: stripHandlers.induct)
  case 1
  then show ?case by simp
next
  case (2 c cs)
  show ?case
  proof (cases "matchHandler (c # cs)")
    case None
    then have "set (stripHandlers cs) \<subseteq> set cs" using "2.IH" by simp
    then show ?thesis using None by auto
  next
    case (Some r)
    then have "set (stripHandlers r) \<subseteq> set r" using "2.IH" by simp
    also have "\<dots> \<subseteq> set (c # cs)" by (rule matchHandler_set [OF Some])
    finally show ?thesis using Some by simp
  qed
qed

lemma set_trim: "set (trim s) \<subseteq> set s"
proof -
  have "set (trim s) \<subseteq> set (dropWhile isSpace s)"
    by (auto simp: trim_def dest: set_dropWhileD)
  also have "\<dots> \<subseteq> set s" by (auto dest: set_dropWhileD)
  finally show ?thesis .
qed

lemma stripTags_id: "CHR ''<'' \<notin> set s \<Longrightarrow> stripTags s = s"
  by (induction s) auto

lemma stripAngles_id:
  "CHR ''<'' \<notin> set s \<Longrightarrow> CHR ''>'' \<notin> set s \<Longrightarrow> stripAngles s = s"
  by (induction s) (auto simp: stripAngles_def)

lemma stripAngles_free:
  "CHR ''<'' \<notin> set (stripAngles s)" "CHR ''>'' \<notin> set (stripAngles s)"
  by (simp_all add: stripAngles_def)

lemma trim_trim: "trim (trim s) = trim s"
proof -
  let ?t = "dropWhile isSpace s"
  let ?u = "rev (dropWhile isSpace (rev ?t))"
  have u: "trim s = ?u" by (simp add: trim_def)
  have split: "?t = ?u @ rev (takeWhile isSpace (rev ?t))"
  proof -
    have "rev ?t = takeWhile isSpace (rev ?t) @ dropWhile isSpace (rev ?t)" by simp
    then have "rev (rev ?t) = rev (takeWhile isSpace (rev ?t) @ dropWhile isSpace (rev ?t))"
      by (rule arg_cong)
    then show ?thesis by (simp only: rev_rev_ident rev_append)
  qed
  have front: "dropWhile isSpace ?u = ?u"
  proof (cases "?u = []")
    case True
    show ?thesis by (simp only: True dropWhile.simps)
  next
    case False
    then have "hd ?u = hd ?t" using split by (metis hd_append2)
    moreover have "?t \<noteq> []"
    proof
      assume e: "?t = []"
      have "?u = []" by (simp only: e rev.simps dropWhile.simps)
      with False show False by simp
    qed
    then have "\<not> isSpace (hd ?t)" by (rule hd_dropWhile)
    ultimately show ?thesis using False by (simp add: dropWhile_eq_self_iff)
  qed
  have "trim ?u = rev (dropWhile isSpace (rev ?u))" by (simp only: trim_def front)
  also have "\<dots> = ?u" by simp
  finally show ?thesis by (simp only: u)
qed

lemma sanitizeInput_angle_free:
  "CHR ''<'' \<notin> set (sanitizeInput x)" "CHR ''>'' \<notin> set (sanitizeInput x)"
proof -
  have sub: "set (sanitizeInput (JString s)) \<subseteq> set (stripAngles (stripTags s))" for s
    using set_trim set_stripHandlers set_stripScheme
    by (simp, blast)
  show "CHR ''<'' \<notin> set (sanitizeInput x)"
    using sub stripAngles_free(1) by (cases x) auto
  show "CHR ''>'' \<notin> set (sanitizeInput x)"
    using sub stripAngles_free(2) by (cases x) auto
qed

lemma sanitizeInput_trimmed: "trim (sanitizeInput x) = sanitizeInput x"
  by (cases x) (simp_all add: trim_trim, simp add: trim_def)

text \<open>
  The result of \<open>sanitizeInput\<close> holds no angle bracket and no white space at either
  end; a second call changes it only where it still holds a match of \<open>javascript:\<close> or
  \<open>on\w+=\<close>.
\<close>

lemma sanitizeInput_total_and_stable:
  "sanitizeInput (NonString v) = []
   \<and> CHR ''<'' \<notin> set (sanitizeInput x) \<and> CHR ''>'' \<notin> set (sanitizeInput x)
   \<and> trim (sanitizeInput x) = sanitizeInput x
   \<and> (stripScheme (sanitizeInput x) = sanitizeInput x
        \<and> stripHandlers (sanitizeInput x) = sanitizeInput x
      \<longrightarrow> sanitizeInput (JString (sanitizeInput x)) = sanitizeInput x)"
proof -
  let ?y = "sanitizeInput x"
  have "sanitizeInput (JString ?y) = ?y"
    if "stripScheme ?y = ?y" "stripHandlers ?y = ?y"
  proof -
    have "stripAngles (stripTags ?y) = ?y"
      using sanitizeInput_angle_free [of x] by (simp add: stripTags_id stripAngles_id)
    then show ?thesis using that sanitizeInput_trimmed [of x] by simp
  qed
  then show ?thesis
    using sanitizeInput_angle_free [of x] sanitizeInput_trimmed [of x] by simp
qed

section \<open>The running total and the discount\<close>

lemma round64_at:
  assumes "0 < a" "pow2 e \<le> a" "a < pow2 (e + 1)" "- 1022 \<le> e" "e \<le> 1022"
  shows "round64 a = Fin (of_int (rne (a / pow2 (e - 52))) * pow2 (e - 52))"
proof -
  have e: "expo a = e" by (rule expo_unique [OF assms(1-3)])
  then have b: "bexp a = e" using assms(4) by (simp add: bexp_def)
  have n: "nearest a = of_int (rne (a / pow2 (e - 52))) * pow2 (e - 52)"
    by (simp add: nearest_def quantum_def b)
  have "nearest a \<le> pow2 (bexp a + 1)" by (rule nearest_le [OF assms(1)])
  also have "\<dots> < pow2 1024" using assms(5) b by (intro pow2_strict_mono) simp
  finally show ?thesis using assms(1) n by (simp add: round64_def)
qed

lemma rne_near:
  assumes "\<bar>y - of_int m\<bar> < 1 / 2"
  shows "rne y = m"
proof (cases "of_int m \<le> y")
  case True
  then have "\<lfloor>y\<rfloor> = m" using assms by (intro floor_unique) auto
  then show ?thesis using assms True by (simp add: rne_def)
next
  case False
  then have f: "\<lfloor>y\<rfloor> = m - 1" using assms by (intro floor_unique) auto
  have "1 / 2 < y - of_int (m - 1)" using assms False by simp
  then show ?thesis using f by (simp add: rne_def)
qed

lemma round64_near:
  assumes "0 < a" "pow2 e \<le> a" "a < pow2 (e + 1)" "- 1022 \<le> e" "e \<le> 1022"
    and "\<bar>a / pow2 (e - 52) - of_int m\<bar> < 1 / 2"
  shows "round64 a = Fin (of_int m * pow2 (e - 52))"
  using round64_at [OF assms(1-5)] rne_near [OF assms(6)] by simp

lemma round64_tenth: "round64 (1 / 10) = Fin (3602879701896397 / 36028797018963968)"
proof -
  have "round64 (1 / 10) = Fin (of_int 7205759403792794 * pow2 (- 4 - 52))"
    by (rule round64_near) (simp_all add: pow2_def)
  then show ?thesis by (simp add: pow2_def)
qed

lemma round64_nine_tenths:
  "round64 (1 - 3602879701896397 / 36028797018963968)
     = Fin (8106479329266893 / 9007199254740992)"
proof -
  let ?a = "1 - 3602879701896397 / 36028797018963968 :: rat"
  have "round64 ?a = Fin (of_int 8106479329266893 * pow2 (- 1 - 52))"
    by (rule round64_near) (simp_all add: pow2_def)
  then show ?thesis by (simp add: pow2_def)
qed

lemma round64_270:
  "round64 (300 * (8106479329266893 / 9007199254740992)) = Fin 270"
proof -
  let ?a = "300 * (8106479329266893 / 9007199254740992) :: rat"
  have "round64 ?a = Fin (of_int 4749890231992320 * pow2 (8 - 52))"
    by (rule round64_near) (simp_all add: pow2_def)
  then show ?thesis by (simp add: pow2_def)
qed

lemma round64_cap:
  "round64 (2 ^ 107 + 2 ^ 53) = Fin (2 ^ 107)"
proof -
  let ?a = "2 ^ 107 + 2 ^ 53 :: rat"
  have "round64 ?a = Fin (of_int (2 ^ 52) * pow2 (107 - 52))"
    by (rule round64_near) (simp_all add: pow2_def)
  then show ?thesis by (simp add: pow2_def)
qed


lemma rowTotal_range: "\<exists>n. rowTotal r = Fin n \<and> 0 \<le> n \<and> n \<le> 9007199254740991"
  by (simp add: rowTotal_def calculateRowTotal_range)

lemma accumulated_zero: "accumulated (Fin 0)"
  by (simp add: accumulated_def round64_def)

lemma accumulated_step:
  assumes "accumulated s"
  shows "accumulated (jadd s (rowTotal r))"
proof -
  from assms obtain v where v: "s = Fin v" "0 \<le> v" "v \<le> 2 ^ 107"
    by (auto simp: accumulated_def)
  obtain n where n: "rowTotal r = Fin n" "0 \<le> n" "n \<le> 9007199254740991"
    using rowTotal_range [of r] by blast
  have lo: "0 \<le> v + n" using v(2) n(2) by simp
  have hi: "v + n \<le> 2 ^ 107 + 2 ^ 53" using v(3) n(3) by simp
  have "jle (round64 (v + n)) (round64 (2 ^ 107 + 2 ^ 53))"
    by (rule round64_mono [OF lo hi])
  then have cap: "jle (round64 (v + n)) (Fin (2 ^ 107))" by (simp only: round64_cap)
  from round64_nonneg [OF lo] cap obtain y where y: "round64 (v + n) = Fin y" "0 \<le> y" "y \<le> 2 ^ 107"
    by (auto simp: jle_def)
  have "round64 y = Fin y" by (rule round64_idem [OF y(1)])
  then show ?thesis using v(1) n(1) y by (simp add: accumulated_def)
qed

lemma accumulated_sumRows: "accumulated s \<Longrightarrow> accumulated (sumRows s rs)"
  by (induction rs arbitrary: s) (simp_all add: accumulated_step)

lemma sumRows_foldl: "sumRows s rs = foldl jadd s (map rowTotal rs)"
  by (induction rs arbitrary: s) simp_all

lemma jadd_zero: "accumulated s \<Longrightarrow> jadd s (Fin 0) = s"
  by (auto simp: accumulated_def)

lemma sumRows_drop_zero:
  "accumulated s \<Longrightarrow> sumRows s (filter (\<lambda>r. rowTotal r \<noteq> Fin 0) rs) = sumRows s rs"
proof (induction rs arbitrary: s)
  case Nil
  then show ?case by simp
next
  case (Cons r rs)
  show ?case
  proof (cases "rowTotal r = Fin 0")
    case True
    then show ?thesis using Cons.IH [OF Cons.prems] jadd_zero [OF Cons.prems] by simp
  next
    case False
    then show ?thesis using Cons.IH [OF accumulated_step [OF Cons.prems]] by simp
  qed
qed

lemma round64_one: "round64 1 = Fin 1"
  using round64_exact_int [of 1] by simp

lemma round64_unit:
  assumes "0 \<le> x" "x \<le> 1"
  shows "\<exists>f. round64 x = Fin f \<and> 0 \<le> f \<and> f \<le> 1"
proof -
  have "jle (round64 x) (round64 1)" by (rule round64_mono [OF assms])
  then have "jle (round64 x) (Fin 1)" by (simp only: round64_one)
  with round64_nonneg [OF assms(1)] show ?thesis by (auto simp: jle_def)
qed

lemma applyDiscount_le:
  assumes "round64 v = Fin v" "0 \<le> v" "0 \<le> d" "d \<le> 100"
  shows "\<exists>g. applyDiscount (Fin v) (Fin d) = Fin g \<and> 0 \<le> g \<and> g \<le> v"
proof (cases "0 < d")
  case False
  then show ?thesis using assms(2) by (simp add: applyDiscount_def jgt_def)
next
  case True
  have "0 \<le> d / 100" "d / 100 \<le> 1" using assms(3,4) by simp_all
  from round64_unit [OF this] obtain f1 where f1: "round64 (d / 100) = Fin f1" "0 \<le> f1" "f1 \<le> 1"
    by blast
  have "0 \<le> 1 - f1" "1 - f1 \<le> 1" using f1(2,3) by simp_all
  from round64_unit [OF this] obtain f2 where f2: "round64 (1 - f1) = Fin f2" "0 \<le> f2" "f2 \<le> 1"
    by blast
  have lo: "0 \<le> v * f2" using assms(2) f2(2) by simp
  have hi: "v * f2 \<le> v" using assms(2) f2(3) by (simp add: mult_left_le)
  have "jle (round64 (v * f2)) (round64 v)" by (rule round64_mono [OF lo hi])
  then have "jle (round64 (v * f2)) (Fin v)" by (simp only: assms(1))
  with round64_nonneg [OF lo] obtain g where g: "round64 (v * f2) = Fin g" "0 \<le> g" "g \<le> v"
    by (auto simp: jle_def)
  have "applyDiscount (Fin v) (Fin d) = Fin g"
    using True f1(1) f2(1) g(1) by (simp add: applyDiscount_def jgt_def jsub_def)
  then show ?thesis using g by simp
qed

lemma areaRow_total: "rowTotal areaRow = Fin 300"
proof -
  have "areaPriced (JString ''10'') (JString ''5'') (JString ''2'') (JString ''3'')"
    using present_value(1) [OF nv_10, of 10000] present_value(1) [OF nv_5, of 10000]
      present_value(1) [OF nv_2, of 10000] present_value(1) [OF nv_3, of 1000000]
    by (simp add: areaPriced_def MAX_ITEM_DIMENSIONS_def MAX_QUANTITY_PER_ITEM_def
        MAX_PRICE_PER_ITEM_def)
  moreover have "rowProduct areaRow = Fin 300"
    using present_value(1) [OF nv_10, of 10000]
    by (simp add: rowProduct_def areaRow_def MAX_ITEM_DIMENSIONS_def nv_10 nv_5 nv_2 nv_3
        round64_numeral)
  ultimately show ?thesis
    using rowTotal_guarded [of areaRow]
    by (simp add: areaRow_def guarded_def overflows_def isFinite_def jgt_def MAX_SAFE_INTEGER_def)
qed

lemma discount_10: "orZero (parseFloat ''10'') = Fin 10"
proof -
  have "strDecimalLiteral (dropWhile isSpace ''10'') = DecimalLiteral 10"
    by (simp add: literal_eval)
  then show ?thesis by (simp add: parseFloat_def round64_numeral orZero_def)
qed

section \<open>calculateTotal against the sale entry calculation\<close>

lemma natDigits_small: "n < 10 \<Longrightarrow> natDigits n = [digitChar n]"
  by (subst natDigits.simps) simp

lemma natDigits_big:
  "\<not> n < 10 \<Longrightarrow> natDigits n = natDigits (n div 10) @ [digitChar (n mod 10)]"
  by (subst natDigits.simps) simp

lemma floor_rat_numeral: "\<lfloor>numeral a / numeral b :: rat\<rfloor> = numeral a div numeral b"
  using floor_divide_of_int_eq [of "numeral a" "numeral b", where ?'a = rat] by simp

lemmas fixed2_eval = fixed2_def natDigits_small natDigits_big digitChar_def floor_rat_numeral Let_def

lemma fixed2_100: "toFixed2 (Fin 100) = Text ''100.00''"
  by (simp add: fixed2_eval del: natDigits.simps)

lemma fixed2_270: "toFixed2 (Fin 270) = Text ''270.00''"
  by (simp add: fixed2_eval del: natDigits.simps)


lemmas integer_eval = strIntegerLiteral_def digitsVal_def digitVal_def hexDigitsVal_def
  hexDigitVal_def isHexDigit_def char_class_defs

lemma jmul_double: "jmul x y = Fin n \<Longrightarrow> round64 n = Fin n"
  by (cases x; cases y) (auto simp: signedInf_def dest: round64_idem split: if_splits)

lemma calculateRowTotal_double:
  assumes "calculateRowTotal width len quantity unitPrice = Fin n"
  shows "round64 n = Fin n"
proof -
  have z: "round64 0 = Fin 0" by (simp add: round64_def)
  have g: "round64 n = Fin n" if "guarded (jmul x y) = Fin n" for x y
    using that z jmul_double [of x y n] by (auto simp: guarded_def split: if_splits)
  show ?thesis
    using assms z g unfolding calculateRowTotal_present by (auto split: if_splits)
qed

lemma single_row_total_text:
  "totalText (updateAllTotals [r] ds)
     = saleEntryTotal (JString (widthField r)) (JString (lengthField r))
         (JString (quantityField r)) (JString (unitPriceField r)) (JString ds)"
proof -
  obtain n where n: "rowTotal r = Fin n" using rowTotal_range [of r] by blast
  then have "round64 n = Fin n"
    using calculateRowTotal_double by (simp add: rowTotal_def)
  then have "jadd (Fin 0) (rowTotal r) = rowTotal r" by (simp add: n)
  then show ?thesis
    by (simp add: updateAllTotals_def saleEntryTotal_def Let_def rowTotal_def)
qed

lemma present_numericValue:
  assumes "present v (Fin m)"
  obtains x where "numericValue v = Fin x" "0 < x" "x \<le> m"
  using assms present_iff [of v m] by blast

lemma flatRow_total:
  "calculateRowTotal (JString []) (JString []) (JString ''5'') (JString ''20'') = Fin 100"
proof -
  have np: "\<not> present (JString []) MAX_ITEM_DIMENSIONS"
    by (rule not_present_NaN [OF nv_empty])
  have f: "flatPriced (JString []) (JString []) (JString ''5'') (JString ''20'')"
    using np present_value(1) [OF nv_5, of 10000] present_value(1) [OF nv_20, of 1000000]
    by (simp add: flatPriced_def MAX_QUANTITY_PER_ITEM_def MAX_PRICE_PER_ITEM_def)
  then have a: "\<not> areaPriced (JString []) (JString []) (JString ''5'') (JString ''20'')"
    by (simp add: flatPriced_def areaPriced_def)
  have sv: "sanitizedValue (validateNumericInput (JString ''5'') (Fin 0) MAX_QUANTITY_PER_ITEM) = Fin 5"
      "sanitizedValue (validateNumericInput (JString ''20'') (Fin 0) MAX_PRICE_PER_ITEM) = Fin 20"
    using present_value(2) [OF nv_5, of 10000] present_value(2) [OF nv_20, of 1000000]
    by (simp_all add: MAX_QUANTITY_PER_ITEM_def MAX_PRICE_PER_ITEM_def)
  have "calculateRowTotal (JString []) (JString []) (JString ''5'') (JString ''20'')
          = guarded (jmul (Fin 5) (Fin 20))"
    using a f by (simp only: calculateRowTotal_present if_True if_False sv)
  then show ?thesis
    by (simp add: guarded_def overflows_def isFinite_def jgt_def MAX_SAFE_INTEGER_def
        round64_numeral)
qed

lemma discount_0: "orZero (parseFloat ''0'') = Fin 0"
proof -
  have "strDecimalLiteral (dropWhile isSpace ''0'') = DecimalLiteral 0"
    by (simp add: literal_eval)
  then show ?thesis by (simp add: parseFloat_def round64_def orZero_def)
qed

lemma plain_digits:
  "sanitizeInput (JString (String (JString ''10''))) = String (JString ''10'')"
  "sanitizeInput (JString (String (JString ''5''))) = String (JString ''5'')"
  "sanitizeInput (JString (String (JString ''2''))) = String (JString ''2'')"
  "sanitizeInput (JString (String (JString ''3''))) = String (JString ''3'')"
  by (simp_all add: sanitize_eval)

lemma parse_2: "parseInt (String (JString ''2'')) = parseFloat (String (JString ''2''))"
proof -
  have "strIntegerLiteral (dropWhile isSpace ''2'') = Some 2" by (simp add: integer_eval)
  moreover have "strDecimalLiteral (dropWhile isSpace ''2'') = DecimalLiteral 2"
    by (simp add: literal_eval)
  ultimately show ?thesis by (simp add: parseInt_def parseFloat_def)
qed

section \<open>The claims\<close>

text \<open>
  C1.  When width, length, quantity and unit price each parse as a number that is
  greater than 0 and within its bound (10000 for the dimensions and the quantity,
  1000000 for the unit price), and the product is finite and not above
  \<open>Number.MAX_SAFE_INTEGER\<close>, \<open>calculateRowTotal\<close> returns
  \<open>width * length * quantity * unitPrice\<close>.
\<close>

theorem area_priced_row:
  assumes "numericValue width = Fin w" "0 < w" "w \<le> 10000"
    and "numericValue len = Fin l" "0 < l" "l \<le> 10000"
    and "numericValue quantity = Fin q" "0 < q" "q \<le> 10000"
    and "numericValue unitPrice = Fin p" "0 < p" "p \<le> 1000000"
    and "\<not> overflows (jmul (jmul (jmul (Fin w) (Fin l)) (Fin q)) (Fin p))"
  shows "calculateRowTotal width len quantity unitPrice
           = jmul (jmul (jmul (Fin w) (Fin l)) (Fin q)) (Fin p)"
proof -
  note pw = present_value [OF assms(1-3)]
  note pl = present_value [OF assms(4-6)]
  note pq = present_value [OF assms(7-9)]
  note pp = present_value [OF assms(10-12)]
  show ?thesis
    using assms(13) pw pl pq pp
    by (simp add: calculateRowTotal_present areaPriced_def guarded_def MAX_ITEM_DIMENSIONS_def
        MAX_QUANTITY_PER_ITEM_def MAX_PRICE_PER_ITEM_def)
qed

theorem area_priced_row_witness:
  "numericValue (JString ''10'') = Fin 10 \<and> numericValue (JString ''5'') = Fin 5
   \<and> numericValue (JString ''2'') = Fin 2 \<and> numericValue (JString ''3'') = Fin 3
   \<and> calculateRowTotal (JString ''10'') (JString ''5'') (JString ''2'') (JString ''3'') = Fin 300"
proof -
  have prod: "jmul (jmul (jmul (Fin 10) (Fin 5)) (Fin 2)) (Fin 3) = Fin 300"
    by (simp add: round64_numeral)
  have "\<not> overflows (jmul (jmul (jmul (Fin 10) (Fin 5)) (Fin 2)) (Fin 3))"
    unfolding prod by (simp add: overflows_def isFinite_def jgt_def MAX_SAFE_INTEGER_def)
  from area_priced_row [OF nv_10 _ _ nv_5 _ _ nv_2 _ _ nv_3 _ _ this]
  have "calculateRowTotal (JString ''10'') (JString ''5'') (JString ''2'') (JString ''3'') = Fin 300"
    by (simp add: round64_numeral)
  with nv_10 nv_5 nv_2 nv_3 show ?thesis by simp
qed

text \<open>
  C2.  When neither width nor length is present but quantity and unit price are (each
  parses as a number greater than 0 and within its bound) and their product is finite
  and not above \<open>Number.MAX_SAFE_INTEGER\<close>, \<open>calculateRowTotal\<close> returns
  \<open>quantity * unitPrice\<close>.  So the row with quantity 5, unit price 20 and empty
  dimensions has the total 100.
\<close>

theorem flat_priced_row:
  assumes "\<not> present width MAX_ITEM_DIMENSIONS" "\<not> present len MAX_ITEM_DIMENSIONS"
    and "numericValue quantity = Fin q" "0 < q" "q \<le> 10000"
    and "numericValue unitPrice = Fin p" "0 < p" "p \<le> 1000000"
    and "\<not> overflows (jmul (Fin q) (Fin p))"
  shows "calculateRowTotal width len quantity unitPrice = jmul (Fin q) (Fin p)"
proof -
  note pq = present_value [OF assms(3-5)]
  note pp = present_value [OF assms(6-8)]
  show ?thesis
    using assms(1,2,9) pq pp
    by (simp add: calculateRowTotal_present areaPriced_def flatPriced_def guarded_def
        MAX_QUANTITY_PER_ITEM_def MAX_PRICE_PER_ITEM_def)
qed

theorem flat_priced_row_witness:
  "\<not> present (JString []) MAX_ITEM_DIMENSIONS
   \<and> numericValue (JString ''5'') = Fin 5 \<and> numericValue (JString ''20'') = Fin 20
   \<and> calculateRowTotal (JString []) (JString []) (JString ''5'') (JString ''20'') = Fin 100"
proof -
  have np: "\<not> present (JString []) MAX_ITEM_DIMENSIONS"
    by (rule not_present_NaN [OF nv_empty])
  have prod: "jmul (Fin 5) (Fin 20) = Fin 100"
    by (simp add: round64_numeral)
  have "\<not> overflows (jmul (Fin 5) (Fin 20))"
    unfolding prod by (simp add: overflows_def isFinite_def jgt_def MAX_SAFE_INTEGER_def)
  from flat_priced_row [OF np np nv_5 _ _ nv_20 _ _ this]
  have "calculateRowTotal (JString []) (JString []) (JString ''5'') (JString ''20'') = Fin 100"
    by (simp add: round64_numeral)
  with np nv_5 nv_20 show ?thesis by simp
qed

text \<open>
  C7.  \<open>validateNumericInput\<close> returns \<open>{isValid: false, sanitizedValue: 0}\<close> when the
  sanitized string form of the value does not parse as a number, the parsed number
  flagged invalid when it is below \<open>min\<close> or above \<open>max\<close>, and the parsed number
  flagged valid otherwise; for bounds that are numbers, valid means
  \<open>min \<le> parsed \<le> max\<close>.
\<close>

theorem validateNumericInput_three_cases:
  "(isNaN (numericValue v) \<longrightarrow>
      validateNumericInput v mn mx = \<lparr>isValid = False, sanitizedValue = Fin 0\<rparr>)
   \<and> (\<not> isNaN (numericValue v) \<and> (jlt (numericValue v) mn \<or> jgt (numericValue v) mx) \<longrightarrow>
      validateNumericInput v mn mx = \<lparr>isValid = False, sanitizedValue = numericValue v\<rparr>)
   \<and> (\<not> isNaN (numericValue v) \<and> \<not> jlt (numericValue v) mn \<and> \<not> jgt (numericValue v) mx \<longrightarrow>
      validateNumericInput v mn mx = \<lparr>isValid = True, sanitizedValue = numericValue v\<rparr>)
   \<and> (mn \<noteq> NaN \<and> mx \<noteq> NaN \<longrightarrow>
      (isValid (validateNumericInput v mn mx) \<longleftrightarrow> jle mn (numericValue v) \<and> jle (numericValue v) mx))"
  by (cases "numericValue v"; cases mn; cases mx)
    (simp_all add: validate_numericValue isNaN_def jle_def jgt_def)

theorem validateNumericInput_three_cases_witness:
  "validateNumericInput (JString ''abc'') (Fin 0) (Fin 10000) = \<lparr>isValid = False, sanitizedValue = Fin 0\<rparr>
   \<and> validateNumericInput (JString ''20000'') (Fin 0) (Fin 10000)
       = \<lparr>isValid = False, sanitizedValue = Fin 20000\<rparr>
   \<and> validateNumericInput (JString ''5'') (Fin 0) (Fin 10000) = \<lparr>isValid = True, sanitizedValue = Fin 5\<rparr>"
  using validateNumericInput_three_cases [of "JString ''abc''" "Fin 0" "Fin 10000"]
    validateNumericInput_three_cases [of "JString ''20000''" "Fin 0" "Fin 10000"]
    validateNumericInput_three_cases [of "JString ''5''" "Fin 0" "Fin 10000"]
  by (simp add: nv_abc nv_20000 nv_5 isNaN_def jgt_def)

text \<open>
  C10.  As stated the claim does not hold for every input whatsoever: when an argument
  has no primitive conversion, the call throws a TypeError and returns no number.
\<close>

theorem calculateRowTotal_throws_without_conversion:
  "callCalculateRowTotal NoPrimitive (Converts (JString ''5'')) (Converts (JString ''2''))
     (Converts (JString ''3'')) = Inl TypeError"
  by simp

text \<open>
  C10, amended.  For all arguments that \<open>String\<close> converts, strings or not, a call of
  \<open>calculateRowTotal\<close> does not throw and returns a finite number between 0 and
  \<open>Number.MAX_SAFE_INTEGER\<close>: never a negative number, NaN or an infinity.  A call
  throws exactly when one of its arguments cannot be converted.
\<close>

theorem calculateRowTotal_finite_in_safe_range:
  "(\<exists>n. callCalculateRowTotal (Converts width) (Converts len) (Converts quantity)
          (Converts unitPrice) = Inr (Fin n)
        \<and> 0 \<le> n \<and> jle (Fin n) MAX_SAFE_INTEGER)
   \<and> ((callCalculateRowTotal a b c d = Inl TypeError) = (NoPrimitive \<in> set [a, b, c, d]))"
proof -
  have "\<exists>n. callCalculateRowTotal (Converts width) (Converts len) (Converts quantity)
          (Converts unitPrice) = Inr (Fin n)
        \<and> 0 \<le> n \<and> jle (Fin n) MAX_SAFE_INTEGER"
    using calculateRowTotal_range [of width len quantity unitPrice]
    by (auto simp: jle_def MAX_SAFE_INTEGER_def)
  moreover have "(callCalculateRowTotal a b c d = Inl TypeError) = (NoPrimitive \<in> set [a, b, c, d])"
    by (cases a; cases b; cases c; cases d) simp_all
  ultimately show ?thesis by (rule conjI)
qed

theorem calculateRowTotal_finite_in_safe_range_witness:
  "(\<exists>n. callCalculateRowTotal (Converts (NonString ''undefined'')) (Converts (JString ''-5''))
          (Converts (JString ''abc'')) (Converts (JString ''1e999'')) = Inr (Fin n)
        \<and> 0 \<le> n \<and> jle (Fin n) MAX_SAFE_INTEGER)
   \<and> callCalculateRowTotal (Converts (JString ''10'')) (Converts (JString ''5''))
         (Converts (JString ''2'')) (Converts (JString ''3'')) \<noteq> Inl TypeError"
  using calculateRowTotal_finite_in_safe_range
    [of "NonString ''undefined''" "JString ''-5''" "JString ''abc''" "JString ''1e999''"
      "Converts (JString ''10'')" "Converts (JString ''5'')" "Converts (JString ''2'')"
      "Converts (JString ''3'')"]
  by simp

text \<open>
  C3.  A row in which exactly one of width and length is present, or in which quantity
  or unit price is not present, has the total 0, and the submit handler reports it: the
  error flag is set (for mixed dimensions a message naming the row is recorded as well)
  and the sale is not handed to \<open>createSale\<close>.
\<close>

theorem invalid_row_zero_and_rejected:
  assumes "r \<in> set (rows f)"
    and "mixedDimensions r \<or> lacksQuantityOrPrice r"
  shows "rowTotal r = Fin 0
    \<and> hasError (scanRows 0 (rows f) emptyScan)
    \<and> (mixedDimensions r \<longrightarrow>
          (\<exists>k < length (rows f). rows f ! k = r
             \<and> k + 1 \<in> set (validationErrors (scanRows 0 (rows f) emptyScan))))
    \<and> \<not> accepted (salesFormSubmit w f)"
proof -
  have err: "rowInError r" using assms(2) by (simp add: rowInError_def)
  then have ex: "\<exists>r \<in> set (rows f). rowInError r" using assms(1) by blast
  have "rowTotal r = Fin 0" by (rule rowTotal_error [OF err])
  moreover have "hasError (scanRows 0 (rows f) emptyScan)"
    using ex by (simp add: scanRows_eq)
  moreover have "\<not> accepted (salesFormSubmit w f)"
    using ex by (simp add: salesFormSubmit_eq accepted_def)
  ultimately show ?thesis using mixed_row_listed [OF assms(1)] by blast
qed

theorem invalid_row_zero_and_rejected_witness:
  "mixedDimensions mixedRow
   \<and> rowTotal mixedRow = Fin 0
   \<and> hasError (scanRows 0 [mixedRow] emptyScan)
   \<and> validationErrors (scanRows 0 [mixedRow] emptyScan) = [1]
   \<and> \<not> accepted (salesFormSubmit exampleWindow (exampleForm [mixedRow]))"
proof -
  have m: "mixedDimensions mixedRow"
    using mixedRow_facts by (simp add: mixedDimensions_def mixedRow_def)
  have "mixedRow \<in> set (rows (exampleForm [mixedRow]))" by (simp add: exampleForm_def)
  from invalid_row_zero_and_rejected [OF this, of exampleWindow] m
  show ?thesis by (simp add: exampleForm_def scanRows_eq emptyScan_def)
qed

text \<open>
  C4.  As stated the claim does not hold: the row with width 10000, length 10000,
  quantity 10000 and unit price 1000000 has four valid positive fields and the product
  \<open>10^18\<close>, above \<open>Number.MAX_SAFE_INTEGER\<close>; its total is 0, yet the submit handler
  sets no error for it and hands the sale to \<open>createSale\<close>.
\<close>

theorem overflow_row_accepted:
  "overflows (rowProduct overflowRow)
   \<and> rowTotal overflowRow = Fin 0
   \<and> \<not> hasError (scanRows 0 [overflowRow] emptyScan)
   \<and> accepted (salesFormSubmit exampleWindow (exampleForm [overflowRow]))"
proof -
  have t: "rowTotal overflowRow = Fin 0"
    using rowTotal_guarded [of overflowRow] overflowRow_priced overflowRow_overflows
    by (simp add: guarded_def)
  have e: "\<not> rowInError overflowRow"
    using priced_not_in_error [of overflowRow] overflowRow_priced by simp
  have h: "\<not> hasError (scanRows 0 [overflowRow] emptyScan)"
    using e by (simp add: scanRows_eq emptyScan_def)
  have "accepted (salesFormSubmit exampleWindow (exampleForm [overflowRow]))"
    using e overflowRow_kept exampleWindow_open
    by (simp add: salesFormSubmit_eq accepted_def MAX_ITEMS_PER_SALE_def exampleForm_def)
  with t h overflowRow_overflows show ?thesis by simp
qed

text \<open>
  C4, amended.  A row whose fields are individually valid and positive (both dimensions
  present, or neither) and whose product is not finite or above
  \<open>Number.MAX_SAFE_INTEGER\<close> has the total 0.  The submit handler validates the four
  fields and never looks at the total, so the row is no error: a sale made of that row
  is handed to \<open>createSale\<close> when the row is kept, the submission is not rate limited
  and the API client is configured.
\<close>

theorem overflow_row_zero_not_flagged:
  assumes "areaPriced (JString (widthField r)) (JString (lengthField r))
             (JString (quantityField r)) (JString (unitPriceField r))
           \<or> flatPriced (JString (widthField r)) (JString (lengthField r))
             (JString (quantityField r)) (JString (unitPriceField r))"
    and "overflows (rowProduct r)"
  shows "rowTotal r = Fin 0
    \<and> \<not> rowInError r
    \<and> \<not> hasError (scanRows 0 [r] emptyScan)
    \<and> (\<not> rateLimited w \<and> apiClient w \<and> kept r \<and> rows f = [r]
          \<longrightarrow> accepted (salesFormSubmit w f))"
proof -
  have t: "rowTotal r = Fin 0"
    using rowTotal_guarded [OF assms(1)] assms(2) by (simp add: guarded_def)
  have e: "\<not> rowInError r" by (rule priced_not_in_error [OF assms(1)])
  have "\<not> hasError (scanRows 0 [r] emptyScan)"
    using e by (simp add: scanRows_eq emptyScan_def)
  moreover have "accepted (salesFormSubmit w f)"
    if "\<not> rateLimited w" "apiClient w" "kept r" "rows f = [r]"
    using that e by (simp add: salesFormSubmit_eq accepted_def MAX_ITEMS_PER_SALE_def)
  ultimately show ?thesis using t e by blast
qed

theorem overflow_row_zero_not_flagged_witness:
  "overflows (rowProduct overflowRow)
   \<and> rowTotal overflowRow = Fin 0
   \<and> \<not> rowInError overflowRow
   \<and> accepted (salesFormSubmit exampleWindow (exampleForm [overflowRow]))"
  using overflow_row_zero_not_flagged [of overflowRow exampleWindow "exampleForm [overflowRow]"]
    overflowRow_priced overflowRow_overflows overflowRow_kept exampleWindow_open
  by (simp add: exampleForm_def)

text \<open>
  C6.  The submit handler lets a sale through only with 1 to 50 rows.  With more than
  50 rows it stops at the capacity alert (unless the rate limiter, which comes first, has
  already stopped it); when no row is kept it stops; when a row has mixed dimensions or
  lacks quantity or unit price it stops.  In none of these cases is \<open>createSale\<close>
  called, and a sale that is handed over carries every kept row of the form.
\<close>

theorem submission_guard_rejects:
  "(MAX_ITEMS_PER_SALE < length (rows f) \<longrightarrow>
      salesFormSubmit w f = (if rateLimited w then RateLimited else TooManyItems))
   \<and> (filter kept (rows f) = [] \<longrightarrow> \<not> accepted (salesFormSubmit w f))
   \<and> ((\<exists>r \<in> set (rows f). mixedDimensions r \<or> lacksQuantityOrPrice r) \<longrightarrow>
        \<not> accepted (salesFormSubmit w f))
   \<and> (accepted (salesFormSubmit w f) \<longrightarrow>
        1 \<le> length (rows f) \<and> length (rows f) \<le> MAX_ITEMS_PER_SALE
        \<and> (\<forall>r \<in> set (rows f). \<not> mixedDimensions r \<and> \<not> lacksQuantityOrPrice r)
        \<and> filter kept (rows f) \<noteq> [])
   \<and> (\<forall>s. salesFormSubmit w f = CreateSale s \<longrightarrow>
        sale_items s = map lineItemOf (filter kept (rows f)))"
proof -
  have a: "MAX_ITEMS_PER_SALE < length (rows f) \<longrightarrow>
      salesFormSubmit w f = (if rateLimited w then RateLimited else TooManyItems)"
    by (simp add: salesFormSubmit_outcome)
  have b: "filter kept (rows f) = [] \<longrightarrow> \<not> accepted (salesFormSubmit w f)"
    by (simp add: accepted_iff)
  have c: "(\<exists>r \<in> set (rows f). mixedDimensions r \<or> lacksQuantityOrPrice r) \<longrightarrow>
        \<not> accepted (salesFormSubmit w f)"
    by (simp add: accepted_iff rowInError_def)
  have d: "accepted (salesFormSubmit w f) \<longrightarrow>
        1 \<le> length (rows f) \<and> length (rows f) \<le> MAX_ITEMS_PER_SALE
        \<and> (\<forall>r \<in> set (rows f). \<not> mixedDimensions r \<and> \<not> lacksQuantityOrPrice r)
        \<and> filter kept (rows f) \<noteq> []"
  proof
    assume acc: "accepted (salesFormSubmit w f)"
    then have k: "filter kept (rows f) \<noteq> []" by (simp add: accepted_iff)
    then have "rows f \<noteq> []" by auto
    then have l1: "1 \<le> length (rows f)" by (cases "rows f") simp_all
    have l2: "length (rows f) \<le> MAX_ITEMS_PER_SALE"
      using acc by (simp add: accepted_iff)
    have l3: "\<forall>r \<in> set (rows f). \<not> mixedDimensions r \<and> \<not> lacksQuantityOrPrice r"
      using acc by (simp add: accepted_iff rowInError_def)
    show "1 \<le> length (rows f) \<and> length (rows f) \<le> MAX_ITEMS_PER_SALE
        \<and> (\<forall>r \<in> set (rows f). \<not> mixedDimensions r \<and> \<not> lacksQuantityOrPrice r)
        \<and> filter kept (rows f) \<noteq> []"
      by (rule conjI [OF l1 conjI [OF l2 conjI [OF l3 k]]])
  qed
  have e: "\<forall>s. salesFormSubmit w f = CreateSale s \<longrightarrow>
        sale_items s = map lineItemOf (filter kept (rows f))"
  proof (intro allI impI)
    fix s
    assume "salesFormSubmit w f = CreateSale s"
    then have "s = saleOf w f" by (rule accepted_sale)
    then show "sale_items s = map lineItemOf (filter kept (rows f))"
      by (simp add: saleOf_def)
  qed
  show ?thesis by (rule conjI [OF a conjI [OF b conjI [OF c conjI [OF d e]]]])
qed

theorem submission_guard_rejects_witness:
  "salesFormSubmit exampleWindow (exampleForm (replicate 51 overflowRow)) = TooManyItems
   \<and> \<not> accepted (salesFormSubmit exampleWindow (exampleForm []))
   \<and> \<not> accepted (salesFormSubmit exampleWindow (exampleForm [overflowRow, mixedRow]))"
proof -
  let ?F51 = "exampleForm (replicate 51 overflowRow)"
  have "MAX_ITEMS_PER_SALE < length (rows ?F51)"
    by (simp add: exampleForm_def MAX_ITEMS_PER_SALE_def)
  with submission_guard_rejects [of ?F51 exampleWindow]
  have "salesFormSubmit exampleWindow ?F51
          = (if rateLimited exampleWindow then RateLimited else TooManyItems)"
    by blast
  then have x1: "salesFormSubmit exampleWindow ?F51 = TooManyItems"
    using exampleWindow_open by simp
  have "filter kept (rows (exampleForm [])) = []" by (simp add: exampleForm_def)
  with submission_guard_rejects [of "exampleForm []" exampleWindow]
  have x2: "\<not> accepted (salesFormSubmit exampleWindow (exampleForm []))" by blast
  have "mixedDimensions mixedRow"
    using mixedRow_facts by (simp add: mixedDimensions_def mixedRow_def)
  then have "\<exists>r \<in> set (rows (exampleForm [overflowRow, mixedRow])).
               mixedDimensions r \<or> lacksQuantityOrPrice r"
    by (simp add: exampleForm_def)
  with submission_guard_rejects [of "exampleForm [overflowRow, mixedRow]" exampleWindow]
  have x3: "\<not> accepted (salesFormSubmit exampleWindow (exampleForm [overflowRow, mixedRow]))"
    by blast
  from x1 x2 x3 show ?thesis by simp
qed

text \<open>
  C8.  \<open>sanitizeInput\<close> has a result for every input and gives the empty string for a
  non-string, but it is not idempotent: on \<open>javajavascript:script:\<close> the pass that
  removes \<open>javascript:\<close> takes out the inner match and joins the two outer pieces, so
  the result is \<open>javascript:\<close>, which a second call turns into the empty string.
\<close>

theorem sanitizeInput_leaves_scheme:
  "sanitizeInput (JString ''javajavascript:script:'') = ''javascript:''
   \<and> sanitizeInput (JString ''javascript:'') = []"
  by (simp add: sanitize_eval)

text \<open>
  C5.  For every list of rows and every discount between 0 and 100, \<open>updateAllTotals\<close>
  computes \<open>supTotal\<close> as the sum of the row totals, added from left to right (rows
  whose total is 0 change nothing), and \<open>finalTotal\<close> as
  \<open>supTotal * (1 - discount / 100)\<close> when the discount is greater than 0 and as
  \<open>supTotal\<close> when it is 0; \<open>finalTotal\<close> is never above \<open>supTotal\<close>.
\<close>

theorem aggregate_totals:
  assumes "orZero (parseFloat discountField) = Fin d" "0 \<le> d" "d \<le> 100"
  shows "supTotal (updateAllTotals rs discountField) = foldl jadd (Fin 0) (map rowTotal rs)
    \<and> supTotal (updateAllTotals (filter (\<lambda>r. rowTotal r \<noteq> Fin 0) rs) discountField)
        = supTotal (updateAllTotals rs discountField)
    \<and> finalTotal (updateAllTotals rs discountField)
        = (if 0 < d
           then jmul (supTotal (updateAllTotals rs discountField))
                  (jsub (Fin 1) (jdiv (Fin d) 100))
           else supTotal (updateAllTotals rs discountField))
    \<and> jle (finalTotal (updateAllTotals rs discountField))
          (supTotal (updateAllTotals rs discountField))
    \<and> (d = 0 \<longrightarrow> finalTotal (updateAllTotals rs discountField)
                    = supTotal (updateAllTotals rs discountField))"
proof -
  let ?u = "updateAllTotals rs discountField"
  have sup: "supTotal ?u = sumRows (Fin 0) rs"
    by (simp add: updateAllTotals_def Let_def)
  have fin: "finalTotal ?u = applyDiscount (sumRows (Fin 0) rs) (Fin d)"
    using assms(1) by (simp add: updateAllTotals_def Let_def)
  have a: "supTotal ?u = foldl jadd (Fin 0) (map rowTotal rs)"
    by (simp only: sup sumRows_foldl)
  have b: "supTotal (updateAllTotals (filter (\<lambda>r. rowTotal r \<noteq> Fin 0) rs) discountField)
        = supTotal ?u"
    using sumRows_drop_zero [OF accumulated_zero, of rs]
    by (simp add: updateAllTotals_def Let_def)
  have c: "finalTotal ?u
        = (if 0 < d then jmul (supTotal ?u) (jsub (Fin 1) (jdiv (Fin d) 100)) else supTotal ?u)"
    by (simp add: fin sup applyDiscount_def jgt_def)
  from accumulated_sumRows [OF accumulated_zero, of rs]
  obtain v where v: "sumRows (Fin 0) rs = Fin v" "0 \<le> v" "round64 v = Fin v"
    by (auto simp: accumulated_def)
  from applyDiscount_le [OF v(3) v(2) assms(2,3)]
  obtain g where g: "applyDiscount (Fin v) (Fin d) = Fin g" "g \<le> v" by blast
  have d: "jle (finalTotal ?u) (supTotal ?u)"
    using g by (simp add: fin sup v(1) jle_def)
  have e: "d = 0 \<longrightarrow> finalTotal ?u = supTotal ?u"
    by (simp add: fin sup applyDiscount_def jgt_def)
  show ?thesis by (rule conjI [OF a conjI [OF b conjI [OF c conjI [OF d e]]]])
qed

theorem aggregate_totals_witness:
  "orZero (parseFloat ''10'') = Fin 10
   \<and> supTotal (updateAllTotals [areaRow] ''10'') = Fin 300
   \<and> finalTotal (updateAllTotals [areaRow] ''10'') = Fin 270
   \<and> jle (finalTotal (updateAllTotals [areaRow] ''10'')) (supTotal (updateAllTotals [areaRow] ''10''))"
proof -
  have ten: "(0::rat) \<le> 10" "(10::rat) \<le> 100" by simp_all
  note t = aggregate_totals [OF discount_10 ten, of "[areaRow]"]
  note t1 = t [THEN conjunct1]
  note t3 = t [THEN conjunct2, THEN conjunct2, THEN conjunct1]
  note t4 = t [THEN conjunct2, THEN conjunct2, THEN conjunct2, THEN conjunct1]
  have s: "supTotal (updateAllTotals [areaRow] ''10'') = Fin 300"
    unfolding t1 by (simp add: areaRow_total round64_numeral)
  have "jdiv (Fin 10) 100 = round64 (1 / 10)" by simp
  then have d1: "jdiv (Fin 10) 100 = Fin (3602879701896397 / 36028797018963968)"
    by (simp only: round64_tenth)
  have "jsub (Fin 1) (Fin (3602879701896397 / 36028797018963968))
          = round64 (1 - 3602879701896397 / 36028797018963968)"
    by (simp only: jsub_def jneg.simps jadd.simps add_uminus_conv_diff)
  then have d2: "jsub (Fin 1) (jdiv (Fin 10) 100) = Fin (8106479329266893 / 9007199254740992)"
    by (simp only: d1 round64_nine_tenths)
  have d3: "jmul (Fin 300) (jsub (Fin 1) (jdiv (Fin 10) 100)) = Fin 270"
    by (simp only: d2 jmul.simps round64_270)
  have "finalTotal (updateAllTotals [areaRow] ''10'')
          = jmul (supTotal (updateAllTotals [areaRow] ''10'')) (jsub (Fin 1) (jdiv (Fin 10) 100))"
    using t3 by (simp only: if_True ten zero_less_numeral)
  then have f: "finalTotal (updateAllTotals [areaRow] ''10'') = Fin 270"
    by (simp only: s d3)
  show ?thesis by (rule conjI [OF discount_10 conjI [OF s conjI [OF f t4]]])
qed

text \<open>
  C9.  As stated the claim does not hold: \<open>calculateTotal\<close> of the sales tracking page
  has no branch for a row without dimensions.  For quantity 5 and unit price 20 with
  empty width and length it returns the empty string, where the sale entry calculation
  gives 100.00.
\<close>

theorem calculateTotal_differs_on_flat_row:
  "calculateTotal (JString []) (JString []) (JString ''5'') (JString ''20'') (JString ''0'')
     = Text []
   \<and> saleEntryTotal (JString []) (JString []) (JString ''5'') (JString ''20'') (JString ''0'')
     = Text ''100.00''"
proof -
  have "strDecimalLiteral (dropWhile isSpace []) = NoLiteral" by (simp add: literal_eval)
  then have "parseFloat [] = NaN" by (simp add: parseFloat_def)
  then have l: "calculateTotal (JString []) (JString []) (JString ''5'') (JString ''20'')
                  (JString ''0'') = Text []"
    by (simp add: calculateTotal_def Let_def isNaN_def)
  have "applyDiscount (Fin 100) (Fin 0) = Fin 100" by (simp add: applyDiscount_def jgt_def)
  then have r: "saleEntryTotal (JString []) (JString []) (JString ''5'') (JString ''20'')
                  (JString ''0'') = Text ''100.00''"
    by (simp only: saleEntryTotal_def flatRow_total String.simps discount_0 fixed2_100)
  show ?thesis by (rule conjI [OF l r])
qed

text \<open>
  C9, amended.  \<open>calculateTotal\<close> agrees with the sale entry calculation on rows priced
  by area: when width, length, quantity and unit price are all present, their texts are
  left unchanged by \<open>sanitizeInput\<close>, the quantity reads as the same number with
  \<open>parseInt\<close> as with \<open>parseFloat\<close>, and the product does not overflow, then for every
  discount \<open>calculateTotal\<close> returns what \<open>calculateRowTotal\<close>, the aggregator's
  discount and \<open>toFixed(2)\<close> give.
\<close>

theorem calculateTotal_matches_area_rows:
  assumes "sanitizeInput (JString (String width)) = String width"
    and "sanitizeInput (JString (String len)) = String len"
    and "sanitizeInput (JString (String quantity)) = String quantity"
    and "sanitizeInput (JString (String unitPrice)) = String unitPrice"
    and "parseInt (String quantity) = parseFloat (String quantity)"
    and "areaPriced width len quantity unitPrice"
    and "\<not> overflows (jmul (jmul (jmul (numericValue width) (numericValue len))
             (numericValue quantity)) (numericValue unitPrice))"
  shows "calculateTotal width len quantity unitPrice discount
           = saleEntryTotal width len quantity unitPrice discount"
proof -
  let ?d = "orZero (parseFloat (String discount))"
  from assms(6) have pr: "present width (Fin 10000)" "present len (Fin 10000)"
      "present quantity (Fin 10000)" "present unitPrice (Fin 1000000)"
    by (simp_all add: areaPriced_def MAX_ITEM_DIMENSIONS_def MAX_QUANTITY_PER_ITEM_def
        MAX_PRICE_PER_ITEM_def)
  from pr(1) obtain w where w: "numericValue width = Fin w" "0 < w" by (rule present_numericValue)
  from pr(2) obtain l where l: "numericValue len = Fin l" "0 < l" by (rule present_numericValue)
  from pr(3) obtain q where q: "numericValue quantity = Fin q" "0 < q" by (rule present_numericValue)
  from pr(4) obtain p where p: "numericValue unitPrice = Fin p" "0 < p" by (rule present_numericValue)
  let ?t = "jmul (jmul (jmul (Fin w) (Fin l)) (Fin q)) (Fin p)"
  have pw: "parseFloat (String width) = Fin w" using w(1) assms(1) by (simp add: numericValue_def)
  have pl: "parseFloat (String len) = Fin l" using l(1) assms(2) by (simp add: numericValue_def)
  have pq: "parseInt (String quantity) = Fin q"
    using q(1) assms(3,5) by (simp add: numericValue_def)
  have pp: "parseFloat (String unitPrice) = Fin p" using p(1) assms(4) by (simp add: numericValue_def)
  have dn: "\<not> isNaN ?d" by (simp add: orZero_def isNaN_def)
  have left: "calculateTotal width len quantity unitPrice discount = toFixed2 (applyDiscount ?t ?d)"
    using w(2) l(2) q(2) p(2) dn
    by (simp add: calculateTotal_def Let_def pw pl pq pp isNaN_def jgt_def applyDiscount_def
        del: jmul.simps)
  have nov: "\<not> overflows ?t" using assms(7) unfolding w(1) l(1) q(1) p(1) .
  have sv: "sanitizedValue (validateNumericInput width (Fin 0) MAX_ITEM_DIMENSIONS) = Fin w"
      "sanitizedValue (validateNumericInput len (Fin 0) MAX_ITEM_DIMENSIONS) = Fin l"
      "sanitizedValue (validateNumericInput quantity (Fin 0) MAX_QUANTITY_PER_ITEM) = Fin q"
      "sanitizedValue (validateNumericInput unitPrice (Fin 0) MAX_PRICE_PER_ITEM) = Fin p"
    using pr w(1) l(1) q(1) p(1)
    by (simp_all add: present_sanitizedValue MAX_ITEM_DIMENSIONS_def MAX_QUANTITY_PER_ITEM_def
        MAX_PRICE_PER_ITEM_def)
  have "calculateRowTotal width len quantity unitPrice = ?t"
    using assms(6) nov by (simp only: calculateRowTotal_present if_True sv guarded_def if_False)
  then have right: "saleEntryTotal width len quantity unitPrice discount
                      = toFixed2 (applyDiscount ?t ?d)"
    by (simp only: saleEntryTotal_def)
  show ?thesis by (simp only: left right)
qed

theorem calculateTotal_matches_area_rows_witness:
  "areaPriced (JString ''10'') (JString ''5'') (JString ''2'') (JString ''3'')
   \<and> calculateTotal (JString ''10'') (JString ''5'') (JString ''2'') (JString ''3'') (JString ''10'')
       = saleEntryTotal (JString ''10'') (JString ''5'') (JString ''2'') (JString ''3'') (JString ''10'')
   \<and> saleEntryTotal (JString ''10'') (JString ''5'') (JString ''2'') (JString ''3'') (JString ''10'')
       = Text ''270.00''"
proof -
  have a: "areaPriced (JString ''10'') (JString ''5'') (JString ''2'') (JString ''3'')"
    using present_value(1) [OF nv_10, of 10000] present_value(1) [OF nv_5, of 10000]
      present_value(1) [OF nv_2, of 10000] present_value(1) [OF nv_3, of 1000000]
    by (simp add: areaPriced_def MAX_ITEM_DIMENSIONS_def MAX_QUANTITY_PER_ITEM_def
        MAX_PRICE_PER_ITEM_def)
  have prod: "jmul (jmul (jmul (Fin 10) (Fin 5)) (Fin 2)) (Fin 3) = Fin 300"
    by (simp add: round64_numeral)
  have nov: "\<not> overflows (jmul (jmul (jmul (numericValue (JString ''10''))
      (numericValue (JString ''5''))) (numericValue (JString ''2''))) (numericValue (JString ''3'')))"
    unfolding nv_10 nv_5 nv_2 nv_3 prod
    by (simp add: overflows_def isFinite_def jgt_def MAX_SAFE_INTEGER_def)
  note eq = calculateTotal_matches_area_rows [OF plain_digits parse_2 a nov, of "JString ''10''"]
  have rt: "calculateRowTotal (JString ''10'') (JString ''5'') (JString ''2'') (JString ''3'') = Fin 300"
    using areaRow_total by (simp add: rowTotal_def areaRow_def)
  have "jdiv (Fin 10) 100 = round64 (1 / 10)" by simp
  then have d1: "jdiv (Fin 10) 100 = Fin (3602879701896397 / 36028797018963968)"
    by (simp only: round64_tenth)
  have "jsub (Fin 1) (Fin (3602879701896397 / 36028797018963968))
          = round64 (1 - 3602879701896397 / 36028797018963968)"
    by (simp only: jsub_def jneg.simps jadd.simps add_uminus_conv_diff)
  then have d2: "jsub (Fin 1) (jdiv (Fin 10) 100) = Fin (8106479329266893 / 9007199254740992)"
    by (simp only: d1 round64_nine_tenths)
  have d3: "jmul (Fin 300) (jsub (Fin 1) (jdiv (Fin 10) 100)) = Fin 270"
    by (simp only: d2 jmul.simps round64_270)
  have "applyDiscount (Fin 300) (Fin 10) = jmul (Fin 300) (jsub (Fin 1) (jdiv (Fin 10) 100))"
    by (simp add: applyDiscount_def jgt_def del: jmul.simps jdiv.simps)
  then have ad: "applyDiscount (Fin 300) (Fin 10) = Fin 270" by (simp only: d3)
  have v: "saleEntryTotal (JString ''10'') (JString ''5'') (JString ''2'') (JString ''3'')
             (JString ''10'') = Text ''270.00''"
    by (simp only: saleEntryTotal_def rt String.simps discount_10 ad fixed2_270)
  show ?thesis by (rule conjI [OF a conjI [OF eq v]])
qed

end
